theory Spec2Isabelle
  imports Complex_Main "HOL-Library.Sublist"
begin

section \<open>Values of the program\<close>

text \<open>
  The module \<^verbatim>\<open>utils/training.py\<close> has three functions: \<^verbatim>\<open>mask_classes\<close>,
  \<^verbatim>\<open>evaluate\<close> and \<^verbatim>\<open>train\<close>. They are embedded below in the order of the source.

  The exceptions that the code of the module can raise by itself.
\<close>

datatype error =
    AssertionError
  | ZeroDivisionError
  | IndexError
  | UnboundLocalError
  | ValueError

text \<open>
  An entry of an output tensor is a floating-point number. No arithmetic is done on the
  entries by this module: they are written (\<^verbatim>\<open>-float('inf')\<close>) and handed to the
  numeric backend, so a finite entry carries a real number and the three special values are
  constructors of their own.
\<close>

datatype pyfloat = NegInf | Fin real | PosInf | NaN

text \<open>A two-dimensional tensor is the list of its rows.\<close>

type_synonym tensor = "pyfloat list list"

subsection \<open>Slices\<close>

text \<open>
  A bound \<open>i\<close> of a slice \<^verbatim>\<open>a:b\<close> over a dimension of size \<open>n\<close>: a negative bound counts
  from the end, and a bound outside the dimension is clamped to it.
\<close>

definition slice_bound :: "int \<Rightarrow> nat \<Rightarrow> nat" where
  "slice_bound i n = (if i < 0 then nat (max 0 (i + int n)) else min (nat i) n)"

text \<open>\<^verbatim>\<open>row[a:b] = v\<close>: every position of the slice receives the scalar \<open>v\<close>.\<close>

definition set_slice :: "'a list \<Rightarrow> int \<Rightarrow> int \<Rightarrow> 'a \<Rightarrow> 'a list" where
  "set_slice row a b v =
     (let lo = slice_bound a (length row);
          hi = slice_bound b (length row)
      in map (\<lambda>(j, x). if lo \<le> j \<and> j < hi then v else x) (zip [0..<length row] row))"

section \<open>The dataset\<close>

text \<open>
  A batch of a test loader is the pair \<^verbatim>\<open>(inputs, labels)\<close>. The inputs are one tensor or a
  Python list of tensors (\<^verbatim>\<open>isinstance(inputs, list)\<close>); the tensors of the inputs are
  opaque to this module and have the type \<open>'x\<close>. The labels are the list of the class
  indices, so \<^verbatim>\<open>labels.shape[0]\<close> is its length.
\<close>

datatype 'x inputs = Single 'x | Multi "'x list"

type_synonym 'x test_batch = "'x inputs \<times> int list"

text \<open>
  A batch of a train loader is a tuple of three components, or of four when the train set
  carries logits.
\<close>

datatype 'x train_batch =
    Batch3 "'x inputs" "int list" 'x
  | Batch4 "'x inputs" "int list" 'x 'x

text \<open>
  The attributes of the \<^verbatim>\<open>ContinualDataset\<close> that the module reads. \<open>has_logits\<close> is
  \<^verbatim>\<open>hasattr(dataset.train_loader.dataset, 'logits')\<close> and \<open>has_scheduler\<close> says that
  \<^verbatim>\<open>dataset.get_scheduler(model, args)\<close> is not \<^verbatim>\<open>None\<close>.
\<close>

record 'x dataset =
  N_TASKS :: int
  N_CLASSES_PER_TASK :: int
  SETTING :: string
  test_loaders :: "'x test_batch list list"
  has_logits :: bool
  has_scheduler :: bool

section \<open>mask_classes\<close>

text \<open>
  \<^verbatim>\<open>outputs[:, 0:k * N_CLASSES_PER_TASK] = -float('inf')\<close>, then
  \<^verbatim>\<open>outputs[:, (k + 1) * N_CLASSES_PER_TASK: N_TASKS * N_CLASSES_PER_TASK] = -float('inf')\<close>.
  The source mutates \<^verbatim>\<open>outputs\<close> in place and returns \<^verbatim>\<open>None\<close>; the model returns the
  tensor after the two assignments.
\<close>

definition mask_classes :: "tensor \<Rightarrow> 'x dataset \<Rightarrow> int \<Rightarrow> tensor" where
  "mask_classes outputs dataset k =
     (let outputs1 =
            map (\<lambda>row. set_slice row 0 (k * N_CLASSES_PER_TASK dataset) NegInf) outputs
      in map (\<lambda>row. set_slice row ((k + 1) * N_CLASSES_PER_TASK dataset)
                        (N_TASKS dataset * N_CLASSES_PER_TASK dataset) NegInf) outputs1)"

section \<open>The model and the external collaborators\<close>

text \<open>
  The attributes of the \<^verbatim>\<open>ContinualModel\<close> that the module reads or writes.
  \<open>net_training\<close> is the flag \<^verbatim>\<open>model.net.training\<close>. \<open>saliency_net_training\<close> is
  \<open>None\<close> when the model has no attribute \<^verbatim>\<open>saliency_net\<close>, and \<open>Some b\<close> when it has
  one whose flag \<^verbatim>\<open>model.saliency_net.training\<close> is \<open>b\<close>. The two attributes may name
  modules of one module tree: \<open>saliency_net_in_net\<close> says that \<^verbatim>\<open>model.saliency_net\<close> is
  \<^verbatim>\<open>model.net\<close> or one of its submodules, and \<open>net_in_saliency_net\<close> that \<^verbatim>\<open>model.net\<close> is
  \<^verbatim>\<open>model.saliency_net\<close> or one of its submodules (both hold when the two attributes name
  one module, none when the networks are modules of their own).
  \<open>has_saliency_scheduler\<close> says that the model has an attribute
  \<^verbatim>\<open>saliency_scheduler\<close> that is not \<^verbatim>\<open>None\<close>, \<open>n_epochs\<close> is
  \<^verbatim>\<open>model.args.n_epochs\<close>, \<open>has_buffer_size\<close> is \<^verbatim>\<open>'buffer_size' in model.args\<close>, and
  \<open>weights\<close> is everything else of the model, opaque to this module.
\<close>

record 'w model =
  net_training :: bool
  saliency_net_training :: "bool option"
  saliency_net_in_net :: bool
  net_in_saliency_net :: bool
  COMPATIBILITY :: "string list"
  has_begin_task :: bool
  has_end_task :: bool
  has_saliency_scheduler :: bool
  n_epochs :: int
  has_buffer_size :: bool
  weights :: 'w

text \<open>
  The loss that \<^verbatim>\<open>model.meta_observe\<close> returns: a float, or a list of floats
  (\<^verbatim>\<open>isinstance(loss, list)\<close>).
\<close>

datatype loss = Loss pyfloat | Loss_list "pyfloat list"

text \<open>
  The numeric backend, the model, the data loading and the experiment tracker are not code
  of this module. What they compute is a parameter of the embedding:
  \<^item> \<open>forward\<close> gives the outputs of \<^verbatim>\<open>model(inputs)\<close> (task \<open>None\<close>) or of
    \<^verbatim>\<open>model(inputs, k)\<close> (task \<open>Some k\<close>) for a model without a saliency network, and
    \<open>forward_saliency\<close> the pair \<^verbatim>\<open>sal_preds, outputs\<close> for a model with one; both are
    given the model as it is at the call, with the modes of its networks, on which the
    outputs of a network may depend;
  \<^item> \<open>torch_max\<close> gives \<^verbatim>\<open>pred\<close> of \<^verbatim>\<open>_, pred = torch.max(outputs.data, 1)\<close>;
  \<^item> \<open>compute_saliency_metrics\<close> gives the tuple of the metrics of one batch and
    \<open>mean_cat\<close> is \<^verbatim>\<open>torch.mean(torch.cat(values)).item()\<close>;
  \<^item> \<open>wandb_installed\<close> says that \<^verbatim>\<open>import wandb\<close> succeeded (\<^verbatim>\<open>wandb is not None\<close>);
  \<^item> \<open>get_data_loaders\<close> gives the train loader that \<^verbatim>\<open>dataset.get_data_loaders()\<close>
    returns and the dataset after the call;
  \<^item> \<open>begin_task\<close>, \<open>end_task\<close> and \<open>meta_observe\<close> give the model after the call, and
    \<open>meta_observe\<close> the loss too.
  A call of a collaborator returns: the exceptions of the embedding are those that the code
  of the module raises. A forward call, made in the evaluation mode and under
  \<^verbatim>\<open>torch.no_grad()\<close>, leaves the model as it is.
\<close>

record ('w, 'x) env =
  forward :: "'w model \<Rightarrow> 'x inputs \<Rightarrow> nat option \<Rightarrow> tensor"
  forward_saliency :: "'w model \<Rightarrow> 'x inputs \<Rightarrow> nat option \<Rightarrow> 'x \<times> tensor"
  torch_max :: "tensor \<Rightarrow> int list"
  compute_saliency_metrics :: "'x \<Rightarrow> 'x \<Rightarrow> 'x list"
  mean_cat :: "'x list \<Rightarrow> real"
  wandb_installed :: bool
  get_data_loaders :: "'x dataset \<Rightarrow> 'x train_batch list \<times> 'x dataset"
  begin_task :: "'w model \<Rightarrow> 'w model"
  end_task :: "'w model \<Rightarrow> 'w model"
  meta_observe :: "'w model \<Rightarrow> 'x train_batch \<Rightarrow> loss \<times> 'w model"

section \<open>The modes of the networks\<close>

text \<open>
  \<^verbatim>\<open>model.net.train(mode)\<close>, and \<^verbatim>\<open>model.net.eval()\<close> for the mode \<open>False\<close>: the call sets
  the flag of the module and of each of its submodules, hence the flag of the saliency
  network too when that is among them.
\<close>

definition net_mode :: "bool \<Rightarrow> 'w model \<Rightarrow> 'w model" where
  "net_mode mode model =
     model\<lparr>net_training := mode,
           saliency_net_training :=
             (if saliency_net_in_net model
              then map_option (\<lambda>_. mode) (saliency_net_training model)
              else saliency_net_training model)\<rparr>"

text \<open>
  \<^verbatim>\<open>model.saliency_net.train(mode)\<close>, and \<^verbatim>\<open>model.saliency_net.eval()\<close> for the mode
  \<open>False\<close>, of a model that has a saliency network: the call sets the flag of the module
  and of each of its submodules, hence the flag of \<^verbatim>\<open>model.net\<close> too when that is among
  them.
\<close>

definition saliency_net_mode :: "bool \<Rightarrow> 'w model \<Rightarrow> 'w model" where
  "saliency_net_mode mode model =
     model\<lparr>net_training := (if net_in_saliency_net model then mode else net_training model),
           saliency_net_training := Some mode\<rparr>"

section \<open>evaluate\<close>

text \<open>\<^verbatim>\<open>torch.sum(pred == labels).item()\<close>, for a prediction per label.\<close>

definition count_equal :: "int list \<Rightarrow> int list \<Rightarrow> nat" where
  "count_equal pred labels = length (filter (\<lambda>(p, l). p = l) (zip pred labels))"

text \<open>
  The locals that the loop over the batches of one test loader updates:
  \<^verbatim>\<open>correct\<close>, \<^verbatim>\<open>correct_mask_classes\<close>, \<^verbatim>\<open>total\<close> (floats that hold counts) and
  \<^verbatim>\<open>sal_scores\<close>.
\<close>

type_synonym 'x batch_state = "nat \<times> nat \<times> nat \<times> 'x list list"

text \<open>
  The argument \<^verbatim>\<open>k\<close> of the forward call: given when \<^verbatim>\<open>'class-il'\<close> is not in
  \<^verbatim>\<open>model.COMPATIBILITY\<close>.
\<close>

definition forward_task :: "'w model \<Rightarrow> nat \<Rightarrow> nat option" where
  "forward_task model k = (if ''class-il'' \<notin> set (COMPATIBILITY model) then Some k else None)"

text \<open>
  Lines 86 to 90: with a saliency network the inputs must be a list
  (\<^verbatim>\<open>assert isinstance(inputs, list)\<close>), \<^verbatim>\<open>inputs[1]\<close> is read, and the metrics of the
  batch are appended to \<^verbatim>\<open>sal_scores\<close>.
\<close>

definition saliency_step ::
  "('w, 'x) env \<Rightarrow> 'w model \<Rightarrow> nat \<Rightarrow> 'x inputs \<Rightarrow> 'x list list \<Rightarrow> error + 'x list list" where
  "saliency_step env model k inputs sal_scores =
     (case saliency_net_training model of
        None \<Rightarrow> Inr sal_scores
      | Some _ \<Rightarrow>
          (case inputs of
             Single x \<Rightarrow> Inl AssertionError
           | Multi xs \<Rightarrow>
               if length xs < 2 then Inl IndexError
               else
                 let sal_preds =
                       fst (forward_saliency env model inputs (forward_task model k))
                 in Inr (sal_scores @ [compute_saliency_metrics env sal_preds (xs ! 1)])))"

text \<open>The body of the loop over the batches of the test loader \<open>k\<close> (lines 63 to 95).\<close>

definition eval_batch ::
  "('w, 'x) env \<Rightarrow> 'w model \<Rightarrow> 'x dataset \<Rightarrow> nat \<Rightarrow> 'x batch_state \<Rightarrow> 'x test_batch \<Rightarrow>
   error + 'x batch_state" where
  "eval_batch env model dataset k st data =
     (case st of (correct, correct_mask_classes, total_n, sal_scores) \<Rightarrow>
      case data of (inputs, labels) \<Rightarrow>
        let outputs =
              (case saliency_net_training model of
                 Some _ \<Rightarrow> snd (forward_saliency env model inputs (forward_task model k))
               | None \<Rightarrow> forward env model inputs (forward_task model k));
            correct1 = correct + count_equal (torch_max env outputs) labels;
            total1 = total_n + length labels
        in case saliency_step env model k inputs sal_scores of
             Inl e \<Rightarrow> Inl e
           | Inr sal_scores1 \<Rightarrow>
               if SETTING dataset = ''class-il''
               then Inr (correct1,
                         correct_mask_classes
                           + count_equal (torch_max env (mask_classes outputs dataset (int k))) labels,
                         total1, sal_scores1)
               else Inr (correct1, correct_mask_classes, total1, sal_scores1))"

fun eval_batches ::
  "('w, 'x) env \<Rightarrow> 'w model \<Rightarrow> 'x dataset \<Rightarrow> nat \<Rightarrow> 'x test_batch list \<Rightarrow> 'x batch_state \<Rightarrow>
   error + 'x batch_state" where
  "eval_batches env model dataset k [] st = Inr st"
| "eval_batches env model dataset k (data # rest) st =
     (case eval_batch env model dataset k st data of
        Inl e \<Rightarrow> Inl e
      | Inr st1 \<Rightarrow> eval_batches env model dataset k rest st1)"

text \<open>
  Lines 61 to 99 for the test loader \<open>k\<close>: the two accuracies that are appended to
  \<^verbatim>\<open>accs\<close> and \<^verbatim>\<open>accs_mask_classes\<close>, and \<^verbatim>\<open>sal_scores\<close> after the batches. The
  counters start at zero for every loader; \<^verbatim>\<open>sal_scores\<close> is not reset. A division by
  \<^verbatim>\<open>total\<close> raises when no label was counted. The entry of \<^verbatim>\<open>accs\<close> is \<open>0\<close> when
  \<^verbatim>\<open>'class-il'\<close> is not in \<^verbatim>\<open>model.COMPATIBILITY\<close>.
\<close>

definition eval_loader ::
  "('w, 'x) env \<Rightarrow> 'w model \<Rightarrow> 'x dataset \<Rightarrow> nat \<Rightarrow> 'x test_batch list \<Rightarrow> 'x list list \<Rightarrow>
   error + real \<times> real \<times> 'x list list" where
  "eval_loader env model dataset k test_loader sal_scores =
     (case eval_batches env model dataset k test_loader (0, 0, 0, sal_scores) of
        Inl e \<Rightarrow> Inl e
      | Inr (correct, correct_mask_classes, total_n, sal_scores1) \<Rightarrow>
          if total_n = 0 then Inl ZeroDivisionError
          else Inr (if ''class-il'' \<in> set (COMPATIBILITY model)
                    then real correct / real total_n * 100 else 0,
                    real correct_mask_classes / real total_n * 100,
                    sal_scores1))"

text \<open>
  Lines 102 to 106: one mean per metric, over the scores of all batches seen so far.
  \<^verbatim>\<open>sal_scores[0]\<close> and \<^verbatim>\<open>s[m_index]\<close> raise when the index is out of range.
\<close>

definition final_scores :: "('w, 'x) env \<Rightarrow> 'x list list \<Rightarrow> error + real list" where
  "final_scores env sal_scores =
     (case sal_scores of
        [] \<Rightarrow> Inl IndexError
      | s0 # _ \<Rightarrow>
          if \<forall>s \<in> set sal_scores. length s0 \<le> length s
          then Inr (map (\<lambda>m_index. mean_cat env (map (\<lambda>s. s ! m_index) sal_scores))
                      [0..<length s0])
          else Inl IndexError)"

text \<open>
  The locals of \<^verbatim>\<open>evaluate\<close> that the loop over the test loaders updates: \<^verbatim>\<open>accs\<close>,
  \<^verbatim>\<open>accs_mask_classes\<close>, \<^verbatim>\<open>sal_scores\<close> and \<^verbatim>\<open>final_sal_scores\<close>, which is unbound
  (\<open>None\<close>) until line 102 binds it.
\<close>

type_synonym 'x loader_state = "real list \<times> real list \<times> 'x list list \<times> real list option"

text \<open>
  Line 59, \<^verbatim>\<open>if last and k < len(dataset.test_loaders) - 1: continue\<close>: with \<^verbatim>\<open>last\<close>
  every loader but the last one is skipped.
\<close>

definition skipped :: "'x dataset \<Rightarrow> bool \<Rightarrow> nat \<Rightarrow> bool" where
  "skipped dataset last_only k \<longleftrightarrow>
     last_only \<and> int k < int (length (test_loaders dataset)) - 1"

text \<open>The loop over \<^verbatim>\<open>enumerate(dataset.test_loaders)\<close> (lines 58 to 106).\<close>

fun eval_loaders ::
  "('w, 'x) env \<Rightarrow> 'w model \<Rightarrow> 'x dataset \<Rightarrow> bool \<Rightarrow> (nat \<times> 'x test_batch list) list \<Rightarrow>
   'x loader_state \<Rightarrow> error + 'x loader_state" where
  "eval_loaders env model dataset last_only [] st = Inr st"
| "eval_loaders env model dataset last_only ((k, test_loader) # rest) st =
     (if skipped dataset last_only k
      then eval_loaders env model dataset last_only rest st
      else
        case st of (accs, accs_mask_classes, sal_scores, final_sal_scores) \<Rightarrow>
        case eval_loader env model dataset k test_loader sal_scores of
          Inl e \<Rightarrow> Inl e
        | Inr (acc, acc_mask_classes, sal_scores1) \<Rightarrow>
            (case saliency_net_training model of
               None \<Rightarrow>
                 eval_loaders env model dataset last_only rest
                   (accs @ [acc], accs_mask_classes @ [acc_mask_classes], sal_scores1,
                    final_sal_scores)
             | Some _ \<Rightarrow>
                 (case final_scores env sal_scores1 of
                    Inl e \<Rightarrow> Inl e
                  | Inr scores \<Rightarrow>
                      eval_loaders env model dataset last_only rest
                        (accs @ [acc], accs_mask_classes @ [acc_mask_classes], sal_scores1,
                         Some scores))))"

text \<open>
  What \<^verbatim>\<open>evaluate\<close> returns: the tuple \<^verbatim>\<open>accs, accs_mask_classes\<close> or the tuple
  \<^verbatim>\<open>accs, accs_mask_classes, final_sal_scores\<close>.
\<close>

datatype eval_result =
    Tuple2 "real list" "real list"
  | Tuple3 "real list" "real list" "real list"

text \<open>\<^verbatim>\<open>len(accs)\<close>, \<^verbatim>\<open>accs[0]\<close> and \<^verbatim>\<open>accs[1]\<close> of a returned tuple.\<close>

fun len :: "eval_result \<Rightarrow> nat" where
  "len (Tuple2 a b) = 2"
| "len (Tuple3 a b c) = 3"

fun item0 :: "eval_result \<Rightarrow> real list" where
  "item0 (Tuple2 a b) = a"
| "item0 (Tuple3 a b c) = a"

fun item1 :: "eval_result \<Rightarrow> real list" where
  "item1 (Tuple2 a b) = b"
| "item1 (Tuple3 a b c) = b"

text \<open>
  The model with every network in the evaluation mode: \<open>net_training\<close> is false, and so is
  the flag of the saliency network when there is one.
\<close>

definition eval_mode :: "'w model \<Rightarrow> 'w model" where
  "eval_mode model =
     model\<lparr>net_training := False,
           saliency_net_training := map_option (\<lambda>_. False) (saliency_net_training model)\<rparr>"

text \<open>
  \<^verbatim>\<open>evaluate(model, dataset, last)\<close>, with \<open>last_only\<close> for the parameter
  \<^verbatim>\<open>last\<close>. Line 49 reads \<^verbatim>\<open>status\<close> and line 50 switches \<^verbatim>\<open>model.net\<close> to the
  evaluation mode; only then, on a model with a saliency network, line 53 reads
  \<^verbatim>\<open>sal_status\<close> and line 54 switches the saliency network. After the loop line 108 sets
  the mode of \<^verbatim>\<open>model.net\<close> to \<^verbatim>\<open>status\<close> and then line 110 the mode of the saliency
  network to \<^verbatim>\<open>sal_status\<close>. The source has no \<^verbatim>\<open>try\<close>, so an exception of the loop
  leaves the networks in the evaluation mode. The embedding gives the result, or the
  exception, and the model object after the call.
\<close>

definition evaluate ::
  "('w, 'x) env \<Rightarrow> 'w model \<Rightarrow> 'x dataset \<Rightarrow> bool \<Rightarrow> (error + eval_result) \<times> 'w model" where
  "evaluate env model dataset last_only =
     (let status = net_training model;
          model1 = net_mode False model;
          sal_status = saliency_net_training model1;
          model2 = (case sal_status of
                      None \<Rightarrow> model1
                    | Some _ \<Rightarrow> saliency_net_mode False model1)
      in case eval_loaders env model2 dataset last_only (enumerate 0 (test_loaders dataset))
                ([], [], [], None) of
           Inl e \<Rightarrow> (Inl e, model2)
         | Inr (accs, accs_mask_classes, sal_scores, final_sal_scores) \<Rightarrow>
             let model3 = net_mode status model2
             in case sal_status of
                  None \<Rightarrow> (Inr (Tuple2 accs accs_mask_classes), model3)
                | Some s \<Rightarrow>
                    let model4 = saliency_net_mode s model3
                    in case final_sal_scores of
                         None \<Rightarrow> (Inl UnboundLocalError, model4)
                       | Some scores \<Rightarrow>
                           (Inr (Tuple3 accs accs_mask_classes scores), model4))"

subsection \<open>What a call of evaluate leaves and appends\<close>

text \<open>
  The terms in which the properties of \<open>evaluate\<close> are stated. \<open>left_by_evaluate\<close> is
  the model after a call whose loop has returned: the flag of the saliency network is the
  one that line 53 read, which is false when the call of line 50 had already switched the
  saliency network, and the flag of \<^verbatim>\<open>model.net\<close> is the one that line 49 read unless the
  call of line 110 sets it too.
\<close>

definition left_by_evaluate :: "'w model \<Rightarrow> 'w model" where
  "left_by_evaluate model =
     (case saliency_net_training model of
        None \<Rightarrow> model
      | Some b \<Rightarrow>
          model\<lparr>net_training :=
                  (if net_in_saliency_net model then \<not> saliency_net_in_net model \<and> b
                   else net_training model),
                saliency_net_training := Some (\<not> saliency_net_in_net model \<and> b)\<rparr>)"

text \<open>
  The batches that a call evaluates, each with the index of its test loader, in the order
  of the loop; and the entry of \<^verbatim>\<open>sal_scores\<close> that line 90 appends for such a batch,
  whose inputs are a list of at least two elements.
\<close>

definition evaluated_batches :: "'x dataset \<Rightarrow> bool \<Rightarrow> (nat \<times> 'x test_batch) list" where
  "evaluated_batches dataset last_only =
     concat (map (\<lambda>kl. map (Pair (fst kl)) (snd kl))
       (filter (\<lambda>kl. \<not> skipped dataset last_only (fst kl))
          (enumerate 0 (test_loaders dataset))))"

definition batch_scores ::
  "('w, 'x) env \<Rightarrow> 'w model \<Rightarrow> nat \<times> 'x test_batch \<Rightarrow> 'x list \<Rightarrow> bool" where
  "batch_scores env model kd s \<longleftrightarrow>
     (case fst (snd kd) of
        Single x \<Rightarrow> False
      | Multi xs \<Rightarrow>
          2 \<le> length xs \<and>
          s = compute_saliency_metrics env
                (fst (forward_saliency env model (Multi xs) (forward_task model (fst kd))))
                (xs ! 1))"

text \<open>
  The collaborators whose forward calls are given the model with every network in the
  evaluation mode, whatever the modes at the call. A function that does the same with them
  as with the collaborators themselves makes every forward call on a model in the
  evaluation mode.
\<close>

definition seen_in_eval_mode :: "('w, 'x) env \<Rightarrow> ('w, 'x) env" where
  "seen_in_eval_mode env =
     env\<lparr>forward := (\<lambda>model. forward env (eval_mode model)),
         forward_saliency := (\<lambda>model. forward_saliency env (eval_mode model))\<rparr>"

section \<open>The state of a run of train\<close>

text \<open>The attributes of \<^verbatim>\<open>args\<close> that decide a branch; \<open>model_name\<close> is \<^verbatim>\<open>args.model\<close>.\<close>

record args =
  nowand :: bool
  disable_log :: bool
  ignore_other_metrics :: bool
  model_name :: string
  debug_mode :: bool
  savecheck :: bool

text \<open>
  A call that \<^verbatim>\<open>train\<close> makes to a collaborator is recorded as an event: the prints, the
  experiment tracker \<^verbatim>\<open>wandb\<close>, the \<^verbatim>\<open>Logger\<close>, the progress bar, the dataset, the model,
  the schedulers, and the files written with \<^verbatim>\<open>torch.save\<close> and \<^verbatim>\<open>pickle.dump\<close>. An event
  carries the arguments of the call where a property below reads them: the epoch and the
  batch index of a training step, and the lists \<^verbatim>\<open>results\<close>, \<^verbatim>\<open>results_mask_classes\<close> and
  \<^verbatim>\<open>sal_metrics\<close>. \<open>Evaluated last_only accs\<close> records that a call of \<^verbatim>\<open>evaluate\<close> with
  this value of \<^verbatim>\<open>last\<close> returned \<open>accs\<close>.
\<close>

datatype event =
    Print_args
  | Wandb_init
  | Wandb_get_url
  | Wandb_log
  | Wandb_finish
  | Net_to_device
  | Saliency_net_to_device
  | Logger_create
  | ProgressBar_create
  | Get_dataset
  | Copy_get_data_loaders
  | Print_newline
  | Get_data_loaders
  | Begin_task
  | Evaluated bool eval_result
  | Get_scheduler
  | Print_task
  | Meta_observe nat nat
  | Progress nat nat
  | Scheduler_step
  | Saliency_scheduler_step
  | End_task
  | Print_mean_accuracy
  | Logger_log
  | Logger_log_fullacc
  | Create_dir
  | Save_net
  | Save_saliency_net
  | Pickle_buffer
  | Pickle_args
  | Open_results_file
  | Logger_dump
  | Pickle_results "real list list" "real list list" "real list"
  | Logger_add_bwt "real list list" "real list list"
  | Logger_add_forgetting "real list list" "real list list"
  | Logger_write

text \<open>
  Where in \<^verbatim>\<open>train\<close> a call is made: before the loop over the tasks of line 148, in the
  body of that loop for the task \<open>t\<close>, or after the loop.
\<close>

datatype phase = Setup | Task nat | Finish

text \<open>
  The objects that a run of \<^verbatim>\<open>train\<close> mutates, and the calls made so far, oldest first.
\<close>

record ('w, 'x) world =
  the_model :: "'w model"
  the_dataset :: "'x dataset"
  trace :: "(phase \<times> event) list"

text \<open>
  A statement of \<^verbatim>\<open>train\<close> takes the world and gives the world after it, with the value
  it computes or the exception it raises. An exception ends the run: the statements after
  it are not executed.
\<close>

type_synonym ('a, 'w, 'x) action = "('w, 'x) world \<Rightarrow> (error + 'a) \<times> ('w, 'x) world"

definition ret :: "'a \<Rightarrow> ('a, 'w, 'x) action" where
  "ret x = (\<lambda>s. (Inr x, s))"

definition raise :: "error \<Rightarrow> ('a, 'w, 'x) action" where
  "raise e = (\<lambda>s. (Inl e, s))"

definition bnd :: "('a, 'w, 'x) action \<Rightarrow> ('a \<Rightarrow> ('b, 'w, 'x) action) \<Rightarrow> ('b, 'w, 'x) action" where
  "bnd m f = (\<lambda>s. case m s of (Inl e, s1) \<Rightarrow> (Inl e, s1) | (Inr x, s1) \<Rightarrow> f x s1)"

definition emit :: "phase \<Rightarrow> event \<Rightarrow> (unit, 'w, 'x) action" where
  "emit p e = (\<lambda>s. (Inr (), s\<lparr>trace := trace s @ [(p, e)]\<rparr>))"

definition read_model :: "('w model, 'w, 'x) action" where
  "read_model = (\<lambda>s. (Inr (the_model s), s))"

definition write_model :: "'w model \<Rightarrow> (unit, 'w, 'x) action" where
  "write_model model = (\<lambda>s. (Inr (), s\<lparr>the_model := model\<rparr>))"

definition read_dataset :: "('x dataset, 'w, 'x) action" where
  "read_dataset = (\<lambda>s. (Inr (the_dataset s), s))"

definition write_dataset :: "'x dataset \<Rightarrow> (unit, 'w, 'x) action" where
  "write_dataset dataset = (\<lambda>s. (Inr (), s\<lparr>the_dataset := dataset\<rparr>))"

text \<open>A value or an exception computed without the world.\<close>

definition lift :: "error + 'a \<Rightarrow> ('a, 'w, 'x) action" where
  "lift r = (case r of Inl e \<Rightarrow> raise e | Inr x \<Rightarrow> ret x)"

text \<open>\<^verbatim>\<open>if b: m\<close>, with no \<^verbatim>\<open>else\<close>.\<close>

definition only_when :: "bool \<Rightarrow> (unit, 'w, 'x) action \<Rightarrow> (unit, 'w, 'x) action" where
  "only_when b m = (if b then m else ret ())"

text \<open>Statements in sequence.\<close>

fun block :: "(unit, 'w, 'x) action list \<Rightarrow> (unit, 'w, 'x) action" where
  "block [] = ret ()"
| "block (m # ms) = bnd m (\<lambda>_. block ms)"

text \<open>
  \<^verbatim>\<open>for x in xs: body\<close>, and the same loop with the locals \<open>acc\<close> that the body rebinds.
\<close>

fun for_each :: "'a list \<Rightarrow> ('a \<Rightarrow> (unit, 'w, 'x) action) \<Rightarrow> (unit, 'w, 'x) action" where
  "for_each [] body = ret ()"
| "for_each (x # xs) body = bnd (body x) (\<lambda>_. for_each xs body)"

fun for_acc :: "'a list \<Rightarrow> ('a \<Rightarrow> 'b \<Rightarrow> ('b, 'w, 'x) action) \<Rightarrow> 'b \<Rightarrow> ('b, 'w, 'x) action" where
  "for_acc [] body acc = ret acc"
| "for_acc (x # xs) body acc = bnd (body x acc) (for_acc xs body)"

section \<open>train\<close>

text \<open>\<^verbatim>\<open>model.net.train()\<close>: the network is in the training mode.\<close>

definition net_train :: "(unit, 'w, 'x) action" where
  "net_train = bnd read_model (\<lambda>model. write_model (net_mode True model))"

text \<open>
  Lines 124 to 147. The assertion of line 127 fails when the tracker is asked for and
  \<^verbatim>\<open>wandb\<close> is \<^verbatim>\<open>None\<close>. The loop of line 143 loads the tasks of a copy of the dataset.
\<close>

definition train_setup :: "('w, 'x) env \<Rightarrow> args \<Rightarrow> (unit, 'w, 'x) action" where
  "train_setup env args = block
     [emit Setup Print_args,
      only_when (\<not> nowand args) (block
        [if wandb_installed env then ret () else raise AssertionError,
         emit Setup Wandb_init,
         emit Setup Wandb_get_url]),
      emit Setup Net_to_device,
      bnd read_model (\<lambda>model.
        only_when (saliency_net_training model \<noteq> None) (emit Setup Saliency_net_to_device)),
      only_when (\<not> disable_log args) (emit Setup Logger_create),
      emit Setup ProgressBar_create,
      only_when (\<not> ignore_other_metrics args) (block
        [emit Setup Get_dataset,
         bnd read_dataset (\<lambda>dataset.
           for_each [0..<nat (N_TASKS dataset)] (\<lambda>t.
             block [net_train, emit Setup Copy_get_data_loaders]))]),
      emit Setup Print_newline]"

text \<open>Line 150: the dataset moves to its next task and returns the train loader.\<close>

definition call_get_data_loaders ::
  "('w, 'x) env \<Rightarrow> nat \<Rightarrow> ('x train_batch list, 'w, 'x) action" where
  "call_get_data_loaders env t =
     bnd (emit (Task t) Get_data_loaders) (\<lambda>_.
     bnd read_dataset (\<lambda>dataset.
     bnd (write_dataset (snd (get_data_loaders env dataset))) (\<lambda>_.
     ret (fst (get_data_loaders env dataset)))))"

text \<open>Lines 151 and 152.\<close>

definition call_begin_task :: "('w, 'x) env \<Rightarrow> nat \<Rightarrow> (unit, 'w, 'x) action" where
  "call_begin_task env t =
     bnd read_model (\<lambda>model.
     only_when (has_begin_task model) (block
       [emit (Task t) Begin_task,
        write_model (begin_task env model)]))"

text \<open>
  A call of \<^verbatim>\<open>evaluate\<close> on the model and the dataset as they are. The model is left as
  \<^verbatim>\<open>evaluate\<close> leaves it, also when it raises.
\<close>

definition call_evaluate :: "('w, 'x) env \<Rightarrow> nat \<Rightarrow> bool \<Rightarrow> (eval_result, 'w, 'x) action" where
  "call_evaluate env t last_only =
     bnd read_model (\<lambda>model.
     bnd read_dataset (\<lambda>dataset.
     case evaluate env model dataset last_only of
       (r, model1) \<Rightarrow>
         bnd (write_model model1) (\<lambda>_.
         case r of
           Inl e \<Rightarrow> raise e
         | Inr accs \<Rightarrow> bnd (emit (Task t) (Evaluated last_only accs)) (\<lambda>_. ret accs))))"

text \<open>
  \<^verbatim>\<open>xs[i] = xs[i] + ys\<close> for an index \<open>i\<close> that is not negative: the entry \<open>i\<close> is
  replaced by its concatenation with \<open>ys\<close>, and reading it raises when \<open>xs\<close> has no
  entry \<open>i\<close>.
\<close>

definition extend_item :: "'a list list \<Rightarrow> nat \<Rightarrow> 'a list \<Rightarrow> error + 'a list list" where
  "extend_item xs i ys = (if i < length xs then Inr (xs[i := xs ! i @ ys]) else Inl IndexError)"

text \<open>
  Lines 155 to 158, the body of \<^verbatim>\<open>if t and not args.ignore_other_metrics\<close>. It gives the
  lists \<^verbatim>\<open>results\<close> and \<^verbatim>\<open>results_mask_classes\<close> after the assignments.
\<close>

definition evaluate_before_task ::
  "('w, 'x) env \<Rightarrow> nat \<Rightarrow> real list list \<Rightarrow> real list list \<Rightarrow>
   (real list list \<times> real list list, 'w, 'x) action" where
  "evaluate_before_task env t results results_mask_classes =
     bnd (call_evaluate env t True) (\<lambda>accs.
     bnd (lift (extend_item results (t - 1) (item0 accs))) (\<lambda>results1.
     bnd read_dataset (\<lambda>dataset.
     if SETTING dataset = ''class-il''
     then bnd (lift (extend_item results_mask_classes (t - 1) (item1 accs)))
            (\<lambda>results_mask_classes1. ret (results1, results_mask_classes1))
     else ret (results1, results_mask_classes))))"

text \<open>Lines 149 to 158: the start of the task \<open>t\<close>, before its training.\<close>

definition task_begin ::
  "('w, 'x) env \<Rightarrow> args \<Rightarrow> nat \<Rightarrow> real list list \<Rightarrow> real list list \<Rightarrow>
   ('x train_batch list \<times> real list list \<times> real list list, 'w, 'x) action" where
  "task_begin env args t results results_mask_classes =
     bnd net_train (\<lambda>_.
     bnd (call_get_data_loaders env t) (\<lambda>train_loader.
     bnd (call_begin_task env t) (\<lambda>_.
     bnd (if t \<noteq> 0 \<and> \<not> ignore_other_metrics args
          then evaluate_before_task env t results results_mask_classes
          else ret (results, results_mask_classes)) (\<lambda>(results1, results_mask_classes1).
     ret (train_loader, results1, results_mask_classes1)))))"

text \<open>
  Lines 187 to 190: \<^verbatim>\<open>assert not math.isnan(loss)\<close>, on the first entry when the loss is a
  list.
\<close>

definition check_loss :: "loss \<Rightarrow> (unit, 'w, 'x) action" where
  "check_loss l =
     (case l of
        Loss x \<Rightarrow> if x = NaN then raise AssertionError else ret ()
      | Loss_list [] \<Rightarrow> raise IndexError
      | Loss_list (x # _) \<Rightarrow> if x = NaN then raise AssertionError else ret ())"

text \<open>
  Lines 168 to 191, one training step. The batch is unpacked into four components when the
  train set has logits and into three otherwise; a batch of the other size raises.
\<close>

definition observe_batch ::
  "('w, 'x) env \<Rightarrow> nat \<Rightarrow> nat \<Rightarrow> nat \<Rightarrow> 'x train_batch \<Rightarrow> (unit, 'w, 'x) action" where
  "observe_batch env t epoch i data =
     bnd read_dataset (\<lambda>dataset.
     bnd (if has_logits dataset
          then (case data of Batch4 _ _ _ _ \<Rightarrow> ret () | Batch3 _ _ _ \<Rightarrow> raise ValueError)
          else (case data of Batch3 _ _ _ \<Rightarrow> ret () | Batch4 _ _ _ _ \<Rightarrow> raise ValueError)) (\<lambda>_.
     bnd read_model (\<lambda>model.
     bnd (emit (Task t) (Meta_observe epoch i)) (\<lambda>_.
     bnd (write_model (snd (meta_observe env model data))) (\<lambda>_.
     bnd (check_loss (fst (meta_observe env model data))) (\<lambda>_.
     emit (Task t) (Progress epoch i)))))))"

text \<open>
  The loop of line 165 over \<^verbatim>\<open>enumerate(train_loader)\<close>, with the \<^verbatim>\<open>break\<close> of line 167.
\<close>

fun train_batches ::
  "('w, 'x) env \<Rightarrow> args \<Rightarrow> nat \<Rightarrow> nat \<Rightarrow> (nat \<times> 'x train_batch) list \<Rightarrow> (unit, 'w, 'x) action" where
  "train_batches env args t epoch [] = ret ()"
| "train_batches env args t epoch ((i, data) # rest) =
     (if debug_mode args \<and> 3 < i then ret ()
      else bnd (observe_batch env t epoch i data) (\<lambda>_. train_batches env args t epoch rest))"

text \<open>
  Lines 163 to 198, one epoch; \<open>scheduler\<close> says that the scheduler of line 160 is not
  \<^verbatim>\<open>None\<close>.
\<close>

definition train_epoch ::
  "('w, 'x) env \<Rightarrow> args \<Rightarrow> nat \<Rightarrow> 'x train_batch list \<Rightarrow> bool \<Rightarrow> nat \<Rightarrow> (unit, 'w, 'x) action" where
  "train_epoch env args t train_loader scheduler epoch =
     (if model_name args = ''joint'' then ret ()
      else block
        [train_batches env args t epoch (enumerate 0 train_loader),
         only_when scheduler (emit (Task t) Scheduler_step),
         bnd read_model (\<lambda>model.
           only_when (saliency_net_training model \<noteq> None \<and> has_saliency_scheduler model)
             (emit (Task t) Saliency_scheduler_step))])"

text \<open>Lines 200 and 201.\<close>

definition call_end_task :: "('w, 'x) env \<Rightarrow> nat \<Rightarrow> (unit, 'w, 'x) action" where
  "call_end_task env t =
     bnd read_model (\<lambda>model.
     only_when (has_end_task model) (block
       [emit (Task t) End_task,
        write_model (end_task env model)]))"

text \<open>Lines 160 to 201: the training of the task \<open>t\<close>.\<close>

definition task_train ::
  "('w, 'x) env \<Rightarrow> args \<Rightarrow> nat \<Rightarrow> 'x train_batch list \<Rightarrow> (unit, 'w, 'x) action" where
  "task_train env args t train_loader =
     bnd read_dataset (\<lambda>dataset.
     bnd (emit (Task t) Get_scheduler) (\<lambda>_.
     bnd (emit (Task t) Print_task) (\<lambda>_.
     bnd read_model (\<lambda>model.
     bnd (for_each [0..<nat (n_epochs model)]
            (train_epoch env args t train_loader (has_scheduler dataset))) (\<lambda>_.
     call_end_task env t)))))"

text \<open>\<^verbatim>\<open>accs[-1]\<close> of a returned tuple.\<close>

fun last_item :: "eval_result \<Rightarrow> real list" where
  "last_item (Tuple2 a b) = b"
| "last_item (Tuple3 a b c) = c"

text \<open>
  Lines 203 to 210: the evaluation at the end of the task and the two appends. It gives
  \<^verbatim>\<open>results\<close>, \<^verbatim>\<open>results_mask_classes\<close> and \<^verbatim>\<open>sal_metrics\<close>.
\<close>

definition task_evaluate ::
  "('w, 'x) env \<Rightarrow> nat \<Rightarrow> real list list \<Rightarrow> real list list \<Rightarrow>
   (real list list \<times> real list list \<times> real list, 'w, 'x) action" where
  "task_evaluate env t results results_mask_classes =
     bnd (call_evaluate env t False) (\<lambda>accs.
     bnd read_model (\<lambda>model.
     ret (results @ [item0 accs], results_mask_classes @ [item1 accs],
          if saliency_net_training model \<noteq> None \<and> 2 < len accs
          then last_item accs else [0, 0, 0])))"

text \<open>
  Lines 212 to 249: the report of the task \<open>t\<close>. The mean accuracies of line 212 are
  arguments of the calls that follow and of nothing else; they are not computed here.
  Line 221 reads three entries of \<^verbatim>\<open>sal_metrics\<close>. Line 249 reads the local \<^verbatim>\<open>logger\<close>, which line 137 binds only when
  \<^verbatim>\<open>args.disable_log\<close> is false; the file of the results is open by then.
\<close>

definition task_report ::
  "args \<Rightarrow> nat \<Rightarrow> real list list \<Rightarrow> real list list \<Rightarrow> real list \<Rightarrow> (unit, 'w, 'x) action" where
  "task_report args t results results_mask_classes sal_metrics = block
     [emit (Task t) Print_mean_accuracy,
      only_when (\<not> disable_log args) (block
        [emit (Task t) Logger_log,
         emit (Task t) Logger_log_fullacc]),
      only_when (\<not> nowand args) (block
        [if length sal_metrics < 3 then raise IndexError else ret (),
         emit (Task t) Wandb_log]),
      only_when (savecheck args) (block
        [emit (Task t) Create_dir,
         emit (Task t) Save_net,
         bnd read_model (\<lambda>model.
           only_when (saliency_net_training model \<noteq> None) (emit (Task t) Save_saliency_net)),
         bnd read_model (\<lambda>model.
           only_when (has_buffer_size model) (emit (Task t) Pickle_buffer)),
         emit (Task t) Pickle_args,
         emit (Task t) Open_results_file,
         if disable_log args then raise UnboundLocalError else emit (Task t) Logger_dump,
         emit (Task t) (Pickle_results results results_mask_classes sal_metrics)])]"

text \<open>
  Lines 149 to 249: the body of the loop over the tasks, from the lists \<^verbatim>\<open>results\<close> and
  \<^verbatim>\<open>results_mask_classes\<close> before the task \<open>t\<close> to the lists after it.
\<close>

definition task ::
  "('w, 'x) env \<Rightarrow> args \<Rightarrow> nat \<Rightarrow> real list list \<times> real list list \<Rightarrow>
   (real list list \<times> real list list, 'w, 'x) action" where
  "task env args t acc =
     (case acc of (results, results_mask_classes) \<Rightarrow>
        bnd (task_begin env args t results results_mask_classes)
          (\<lambda>(train_loader, results1, results_mask_classes1).
        bnd (task_train env args t train_loader) (\<lambda>_.
        bnd (task_evaluate env t results1 results_mask_classes1)
          (\<lambda>(results2, results_mask_classes2, sal_metrics).
        bnd (task_report args t results2 results_mask_classes2 sal_metrics) (\<lambda>_.
        ret (results2, results_mask_classes2))))))"

text \<open>Lines 251 to 263.\<close>

definition train_finish ::
  "args \<Rightarrow> real list list \<Rightarrow> real list list \<Rightarrow> (unit, 'w, 'x) action" where
  "train_finish args results results_mask_classes = block
     [only_when (\<not> disable_log args \<and> \<not> ignore_other_metrics args) (block
        [emit Finish (Logger_add_bwt results results_mask_classes),
         emit Finish (Logger_add_forgetting results results_mask_classes)]),
      only_when (\<not> disable_log args) (block
        [emit Finish Logger_write,
         only_when (\<not> nowand args) (block
           [emit Finish Logger_dump,
            emit Finish Wandb_get_url,
            emit Finish Wandb_log])]),
      only_when (\<not> nowand args) (emit Finish Wandb_finish)]"

text \<open>
  The statements of \<^verbatim>\<open>train\<close> from the first to the last. The loop of line 148 runs over
  \<^verbatim>\<open>range(dataset.N_TASKS)\<close> and starts with two empty lists.
\<close>

definition train_body ::
  "('w, 'x) env \<Rightarrow> args \<Rightarrow> (real list list \<times> real list list, 'w, 'x) action" where
  "train_body env args =
     bnd (train_setup env args) (\<lambda>_.
     bnd read_dataset (\<lambda>dataset.
     bnd (for_acc [0..<nat (N_TASKS dataset)] (task env args) ([], [])) (\<lambda>acc.
     case acc of (results, results_mask_classes) \<Rightarrow>
       bnd (train_finish args results results_mask_classes) (\<lambda>_.
       ret (results, results_mask_classes)))))"

text \<open>
  \<^verbatim>\<open>train(model, dataset, args)\<close>. The source returns \<^verbatim>\<open>None\<close>; the model returns the
  lists \<^verbatim>\<open>results\<close> and \<^verbatim>\<open>results_mask_classes\<close> as they are when \<^verbatim>\<open>train\<close> returns, or
  the exception, and the world after the run.
\<close>

definition train ::
  "('w, 'x) env \<Rightarrow> args \<Rightarrow> 'w model \<Rightarrow> 'x dataset \<Rightarrow>
   (error + real list list \<times> real list list) \<times> ('w, 'x) world" where
  "train env args model dataset =
     train_body env args \<lparr>the_model = model, the_dataset = dataset, trace = []\<rparr>"

section \<open>A small run\<close>

text \<open>
  Collaborators, a model, a dataset and arguments on which the functions above can be
  run. The dataset has two tasks of two classes. In the evaluation mode the network gives
  the same outputs for every input, and in the training mode outputs whose first column is
  masked; the saliency prediction is 7 plus the first input. \<open>demo_argmax\<close> takes the
  first column that is not masked, each call of \<open>get_data_loaders\<close> adds a test loader of
  one batch whose first input is the number of the task and whose label is the first class
  of the new task, and each training step adds one to the weights. The two networks of the
  model are modules of their own.
\<close>

definition demo_argmax :: "tensor \<Rightarrow> int list" where
  "demo_argmax outputs = map (\<lambda>row. int (length (takeWhile (\<lambda>v. v = NegInf) row))) outputs"

definition demo_env :: "(nat, nat) env" where
  "demo_env =
     \<lparr>forward = (\<lambda>model inputs task.
        if net_training model then [[NegInf, Fin 3, Fin 2, Fin 1]]
        else [[Fin 4, Fin 3, Fin 2, Fin 1]]),
      forward_saliency = (\<lambda>model inputs task.
        (7 + (case inputs of Single x \<Rightarrow> x | Multi xs \<Rightarrow> hd xs),
         if net_training model \<or> saliency_net_training model \<noteq> Some False
         then [[NegInf, Fin 3, Fin 2, Fin 1]]
         else [[Fin 4, Fin 3, Fin 2, Fin 1]])),
      torch_max = demo_argmax,
      compute_saliency_metrics = (\<lambda>sal_preds target. [sal_preds, target, sal_preds + target]),
      mean_cat = (\<lambda>values. real (sum_list values) / real (length values)),
      wandb_installed = True,
      get_data_loaders = (\<lambda>dataset.
        ([Batch3 (Multi [0, 1]) [0] 0],
         dataset\<lparr>test_loaders :=
           test_loaders dataset @
             [[(Multi [length (test_loaders dataset), 1],
                [2 * int (length (test_loaders dataset))])]]\<rparr>)),
      begin_task = (\<lambda>model. model),
      end_task = (\<lambda>model. model),
      meta_observe = (\<lambda>model data. (Loss (Fin 1), model\<lparr>weights := weights model + 1\<rparr>))\<rparr>"

definition demo_model :: "nat model" where
  "demo_model =
     \<lparr>net_training = True, saliency_net_training = None,
      saliency_net_in_net = False, net_in_saliency_net = False,
      COMPATIBILITY = [''class-il'', ''task-il''],
      has_begin_task = True, has_end_task = True, has_saliency_scheduler = False,
      n_epochs = 1, has_buffer_size = True, weights = 0\<rparr>"

definition demo_dataset :: "nat dataset" where
  "demo_dataset =
     \<lparr>N_TASKS = 2, N_CLASSES_PER_TASK = 2, SETTING = ''class-il'', test_loaders = [],
      has_logits = False, has_scheduler = True\<rparr>"

definition demo_args :: args where
  "demo_args =
     \<lparr>nowand = False, disable_log = False, ignore_other_metrics = False,
      model_name = ''sgd'', debug_mode = False, savecheck = True\<rparr>"

text \<open>The dataset after its two tasks were loaded.\<close>

definition demo_loaded :: "nat dataset" where
  "demo_loaded = snd (get_data_loaders demo_env (snd (get_data_loaders demo_env demo_dataset)))"

text \<open>The world in which the task 1 starts: the task 0 was loaded, and the trace is empty.\<close>

definition demo_world :: "(nat, nat) world" where
  "demo_world =
     \<lparr>the_model = demo_model, the_dataset = snd (get_data_loaders demo_env demo_dataset),
      trace = []\<rparr>"

section \<open>The calls of a run\<close>

text \<open>
  The definitions of this section describe the trace of a run; the lemmas of the sections
  below relate them to \<open>train\<close>.

  The calls that the start of a task and its training make, from line 149 to line 201:
  every event of these lines but the evaluation at the end of the task.
\<close>

fun training_event :: "event \<Rightarrow> bool" where
  "training_event Get_data_loaders = True"
| "training_event Begin_task = True"
| "training_event (Evaluated last_only accs) = last_only"
| "training_event Get_scheduler = True"
| "training_event Print_task = True"
| "training_event (Meta_observe epoch i) = True"
| "training_event (Progress epoch i) = True"
| "training_event Scheduler_step = True"
| "training_event Saliency_scheduler_step = True"
| "training_event End_task = True"
| "training_event _ = False"

text \<open>
  The calls of the lines 124 to 147 when the assertion of line 127 holds, for \<open>n\<close> rounds
  of the loop of line 143; of the lines 212 to 249 for the task \<open>t\<close> when no statement
  raises; and of the lines 251 to 263. \<open>saliency\<close> says that the model has a saliency
  network and \<open>buffer\<close> that \<^verbatim>\<open>'buffer_size'\<close> is in \<^verbatim>\<open>model.args\<close>.
\<close>

definition setup_events :: "args \<Rightarrow> bool \<Rightarrow> nat \<Rightarrow> (phase \<times> event) list" where
  "setup_events args saliency n = map (Pair Setup)
     ([Print_args]
      @ (if nowand args then [] else [Wandb_init, Wandb_get_url])
      @ [Net_to_device]
      @ (if saliency then [Saliency_net_to_device] else [])
      @ (if disable_log args then [] else [Logger_create])
      @ [ProgressBar_create]
      @ (if ignore_other_metrics args then [] else Get_dataset # replicate n Copy_get_data_loaders)
      @ [Print_newline])"

definition report_events ::
  "args \<Rightarrow> bool \<Rightarrow> bool \<Rightarrow> nat \<Rightarrow> real list list \<Rightarrow> real list list \<Rightarrow> real list \<Rightarrow>
   (phase \<times> event) list" where
  "report_events args saliency buffer t results results_mask_classes sal_metrics =
   map (Pair (Task t))
     ([Print_mean_accuracy]
      @ (if disable_log args then [] else [Logger_log, Logger_log_fullacc])
      @ (if nowand args then [] else [Wandb_log])
      @ (if savecheck args
         then [Create_dir, Save_net]
              @ (if saliency then [Save_saliency_net] else [])
              @ (if buffer then [Pickle_buffer] else [])
              @ [Pickle_args, Open_results_file, Logger_dump,
                 Pickle_results results results_mask_classes sal_metrics]
         else []))"

definition finish_events ::
  "args \<Rightarrow> real list list \<Rightarrow> real list list \<Rightarrow> (phase \<times> event) list" where
  "finish_events args results results_mask_classes = map (Pair Finish)
     ((if \<not> disable_log args \<and> \<not> ignore_other_metrics args
       then [Logger_add_bwt results results_mask_classes,
             Logger_add_forgetting results results_mask_classes]
       else [])
      @ (if disable_log args then []
         else Logger_write # (if nowand args then [] else [Logger_dump, Wandb_get_url, Wandb_log]))
      @ (if nowand args then [] else [Wandb_finish]))"

text \<open>
  The calls of a task that returned: the load of its data, calls of its start and its
  training, the evaluation at its end, and its report.
\<close>

definition task_block :: "args \<Rightarrow> nat \<Rightarrow> (phase \<times> event) list \<Rightarrow> bool" where
  "task_block args t es \<longleftrightarrow>
     (\<exists>es1 accs saliency buffer results results_mask_classes sal_metrics.
        es = (Task t, Get_data_loaders) # es1 @ (Task t, Evaluated False accs) #
               report_events args saliency buffer t results results_mask_classes sal_metrics \<and>
        list_all (\<lambda>x. fst x = Task t \<and> training_event (snd x)) es1)"

text \<open>
  The evaluations at the end of a task in a trace, oldest first: the phase of the call and
  what \<^verbatim>\<open>evaluate\<close> returned.
\<close>

fun end_evaluation :: "phase \<times> event \<Rightarrow> (phase \<times> eval_result) list" where
  "end_evaluation (p, Evaluated last_only accs) = (if last_only then [] else [(p, accs)])"
| "end_evaluation (p, e) = []"

definition end_evaluations :: "(phase \<times> event) list \<Rightarrow> (phase \<times> eval_result) list" where
  "end_evaluations tr = concat (map end_evaluation tr)"

text \<open>
  The calls that record the forgetting and the backward transfer, the calls to the local
  tracker and the calls to the remote tracker.
\<close>

fun metric_event :: "event \<Rightarrow> bool" where
  "metric_event (Logger_add_bwt results results_mask_classes) = True"
| "metric_event (Logger_add_forgetting results results_mask_classes) = True"
| "metric_event _ = False"

fun local_tracker_event :: "event \<Rightarrow> bool" where
  "local_tracker_event Logger_create = True"
| "local_tracker_event Logger_log = True"
| "local_tracker_event Logger_log_fullacc = True"
| "local_tracker_event Logger_write = True"
| "local_tracker_event _ = False"

fun remote_tracker_event :: "event \<Rightarrow> bool" where
  "remote_tracker_event Wandb_init = True"
| "remote_tracker_event Wandb_log = True"
| "remote_tracker_event Wandb_finish = True"
| "remote_tracker_event _ = False"

text \<open>The files that a checkpoint writes.\<close>

fun checkpoint_event :: "event \<Rightarrow> bool" where
  "checkpoint_event Save_net = True"
| "checkpoint_event Save_saliency_net = True"
| "checkpoint_event Pickle_buffer = True"
| "checkpoint_event Pickle_args = True"
| "checkpoint_event (Pickle_results results results_mask_classes sal_metrics) = True"
| "checkpoint_event _ = False"

text \<open>
  \<open>emits P m\<close>: whatever the outcome of the statement \<open>m\<close>, the trace after it is the
  trace before it followed by calls that satisfy \<open>P\<close>.
\<close>

definition emits :: "(phase \<times> event \<Rightarrow> bool) \<Rightarrow> ('a, 'w, 'x) action \<Rightarrow> bool" where
  "emits P m \<longleftrightarrow> (\<forall>s r s'. m s = (r, s') \<longrightarrow> (\<exists>es. trace s' = trace s @ es \<and> list_all P es))"

text \<open>A call of the start or the training of the task \<open>t\<close>.\<close>

abbreviation training_of :: "nat \<Rightarrow> phase \<times> event \<Rightarrow> bool" where
  "training_of t \<equiv> \<lambda>x. fst x = Task t \<and> training_event (snd x)"

section \<open>Properties of mask_classes\<close>

lemma length_set_slice: "length (set_slice row a b v) = length row"
  by (simp add: set_slice_def Let_def)

lemma nth_set_slice:
  "j < length row \<Longrightarrow>
   set_slice row a b v ! j =
     (if slice_bound a (length row) \<le> j \<and> j < slice_bound b (length row) then v else row ! j)"
  by (simp add: set_slice_def Let_def)

lemma slice_bound_inside:
  "0 \<le> i \<Longrightarrow> i \<le> int n \<Longrightarrow> slice_bound i n = nat i"
  by (simp add: slice_bound_def)

lemma length_mask_classes: "length (mask_classes outputs dataset k) = length outputs"
  by (simp add: mask_classes_def Let_def)

lemma nth_mask_classes:
  "i < length outputs \<Longrightarrow>
   mask_classes outputs dataset k ! i =
     set_slice (set_slice (outputs ! i) 0 (k * N_CLASSES_PER_TASK dataset) NegInf)
       ((k + 1) * N_CLASSES_PER_TASK dataset)
       (N_TASKS dataset * N_CLASSES_PER_TASK dataset) NegInf"
  by (simp add: mask_classes_def Let_def)

text \<open>
  With a positive number of classes per task and a task index in range, the bounds of the
  two slices are inside the row and ordered.
\<close>

lemma task_bounds:
  fixes k c T :: int
  assumes "0 \<le> k" "k < T" "0 < c"
  shows "0 \<le> k * c" "k * c < (k + 1) * c" "(k + 1) * c \<le> T * c"
proof -
  show "0 \<le> k * c" using assms by simp
  show "k * c < (k + 1) * c" using assms by (simp add: algebra_simps)
  have "k + 1 \<le> T" using assms by simp
  then show "(k + 1) * c \<le> T * c" using assms by (simp add: mult_right_mono)
qed

lemma mask_row_positive:
  fixes k c T :: int
  assumes k: "0 \<le> k" "k < T" and c: "0 < c"
    and cols: "T * c \<le> int (length row)" and j: "j < length row"
  shows "set_slice (set_slice row 0 (k * c) NegInf) ((k + 1) * c) (T * c) NegInf ! j =
         (if int j < k * c \<or> ((k + 1) * c \<le> int j \<and> int j < T * c) then NegInf else row ! j)"
proof -
  note b = task_bounds [OF k c]
  have b0: "slice_bound 0 (length row) = 0"
    by (simp add: slice_bound_def)
  have b1: "slice_bound (k * c) (length row) = nat (k * c)"
    using b cols by (intro slice_bound_inside) linarith+
  have b2: "slice_bound ((k + 1) * c) (length row) = nat ((k + 1) * c)"
    using b cols by (intro slice_bound_inside) linarith+
  have b3: "slice_bound (T * c) (length row) = nat (T * c)"
    using b cols by (intro slice_bound_inside) linarith+
  have "set_slice (set_slice row 0 (k * c) NegInf) ((k + 1) * c) (T * c) NegInf ! j =
        (if nat ((k + 1) * c) \<le> j \<and> j < nat (T * c) then NegInf
         else if j < nat (k * c) then NegInf else row ! j)"
    using j by (simp add: nth_set_slice length_set_slice b0 b1 b2 b3)
  also have "\<dots> = (if int j < k * c \<or> ((k + 1) * c \<le> int j \<and> int j < T * c)
                    then NegInf else row ! j)"
    using b by auto
  finally show ?thesis .
qed

text \<open>
  Without a positive number of classes per task the three column ranges of a task are
  empty.
\<close>

lemma task_ranges_empty:
  fixes k c T :: int
  assumes "0 \<le> k" "k < T" "c \<le> 0"
  shows "k * c \<le> 0" "T * c \<le> (k + 1) * c" "(k + 1) * c \<le> k * c"
proof -
  show "k * c \<le> 0" using assms by (simp add: mult_nonneg_nonpos)
  have "k + 1 \<le> T" using assms by simp
  then show "T * c \<le> (k + 1) * c" using assms by (simp add: mult_right_mono_neg)
  show "(k + 1) * c \<le> k * c" using assms by (simp add: algebra_simps)
qed

lemma mask_classes_entries:
  assumes cols: "\<forall>row \<in> set outputs.
                   N_TASKS dataset * N_CLASSES_PER_TASK dataset \<le> int (length row)"
    and k: "0 \<le> k" "k < N_TASKS dataset"
    and i: "i < length outputs" and j: "j < length (outputs ! i)"
  shows "length (mask_classes outputs dataset k ! i) = length (outputs ! i)"
    and "int j < k * N_CLASSES_PER_TASK dataset \<Longrightarrow>
           mask_classes outputs dataset k ! i ! j = NegInf"
    and "(k + 1) * N_CLASSES_PER_TASK dataset \<le> int j \<Longrightarrow>
         int j < N_TASKS dataset * N_CLASSES_PER_TASK dataset \<Longrightarrow>
           mask_classes outputs dataset k ! i ! j = NegInf"
    and "k * N_CLASSES_PER_TASK dataset \<le> int j \<Longrightarrow>
         int j < (k + 1) * N_CLASSES_PER_TASK dataset \<Longrightarrow>
           mask_classes outputs dataset k ! i ! j = outputs ! i ! j"
proof -
  let ?c = "N_CLASSES_PER_TASK dataset" and ?T = "N_TASKS dataset"
  let ?row = "outputs ! i"
  have row: "?T * ?c \<le> int (length ?row)"
    using cols i by simp
  show "length (mask_classes outputs dataset k ! i) = length ?row"
    using i by (simp add: nth_mask_classes length_set_slice)
  have pos: "mask_classes outputs dataset k ! i ! j =
        (if int j < k * ?c \<or> ((k + 1) * ?c \<le> int j \<and> int j < ?T * ?c)
         then NegInf else ?row ! j)" if "0 < ?c"
    using i mask_row_positive [OF k that row j] by (simp add: nth_mask_classes)
  show "mask_classes outputs dataset k ! i ! j = NegInf" if a: "int j < k * ?c"
  proof (cases "0 < ?c")
    case True
    then show ?thesis using pos a by simp
  next
    case False
    then have "k * ?c \<le> 0" using task_ranges_empty(1) [OF k] by simp
    then show ?thesis using a by simp
  qed
  show "mask_classes outputs dataset k ! i ! j = NegInf"
    if a: "(k + 1) * ?c \<le> int j" "int j < ?T * ?c"
  proof (cases "0 < ?c")
    case True
    then show ?thesis using pos a by simp
  next
    case False
    then have "?T * ?c \<le> (k + 1) * ?c" using task_ranges_empty(2) [OF k] by simp
    then show ?thesis using a by simp
  qed
  show "mask_classes outputs dataset k ! i ! j = ?row ! j"
    if a: "k * ?c \<le> int j" "int j < (k + 1) * ?c"
  proof (cases "0 < ?c")
    case True
    then have "k * ?c < (k + 1) * ?c" "(k + 1) * ?c \<le> ?T * ?c"
      using task_bounds [OF k] by simp_all
    then show ?thesis using pos [OF True] a by simp
  next
    case False
    then have "(k + 1) * ?c \<le> k * ?c" using task_ranges_empty(3) [OF k] by simp
    then show ?thesis using a by simp
  qed
qed

text \<open>
  C1. For an output tensor whose rows have at least \<open>N_TASKS * N_CLASSES_PER_TASK\<close> columns
  and a task index \<open>k\<close> with \<open>0 \<le> k < N_TASKS\<close>, after \<open>mask_classes outputs dataset k\<close>
  the tensor has the rows and the columns it had, every entry in the columns
  \<open>[0, k * N_CLASSES_PER_TASK)\<close> and
  \<open>[(k + 1) * N_CLASSES_PER_TASK, N_TASKS * N_CLASSES_PER_TASK)\<close> of every row is minus
  infinity, and every entry in the columns
  \<open>[k * N_CLASSES_PER_TASK, (k + 1) * N_CLASSES_PER_TASK)\<close> of the current task is the
  entry of the tensor before the call.
\<close>

theorem mask_classes_masks_other_tasks:
  assumes cols: "\<forall>row \<in> set outputs.
                   N_TASKS dataset * N_CLASSES_PER_TASK dataset \<le> int (length row)"
    and k: "0 \<le> k" "k < N_TASKS dataset"
  shows "length (mask_classes outputs dataset k) = length outputs \<and>
         (\<forall>i < length outputs.
            length (mask_classes outputs dataset k ! i) = length (outputs ! i) \<and>
            (\<forall>j < length (outputs ! i).
               (int j < k * N_CLASSES_PER_TASK dataset \<longrightarrow>
                  mask_classes outputs dataset k ! i ! j = NegInf) \<and>
               ((k + 1) * N_CLASSES_PER_TASK dataset \<le> int j \<and>
                int j < N_TASKS dataset * N_CLASSES_PER_TASK dataset \<longrightarrow>
                  mask_classes outputs dataset k ! i ! j = NegInf) \<and>
               (k * N_CLASSES_PER_TASK dataset \<le> int j \<and>
                int j < (k + 1) * N_CLASSES_PER_TASK dataset \<longrightarrow>
                  mask_classes outputs dataset k ! i ! j = outputs ! i ! j)))"
proof (intro conjI allI impI)
  show "length (mask_classes outputs dataset k) = length outputs"
    by (rule length_mask_classes)
next
  fix i assume "i < length outputs"
  then show "length (mask_classes outputs dataset k ! i) = length (outputs ! i)"
    by (simp add: nth_mask_classes length_set_slice)
next
  fix i j assume "i < length outputs" "j < length (outputs ! i)"
    and "int j < k * N_CLASSES_PER_TASK dataset"
  then show "mask_classes outputs dataset k ! i ! j = NegInf"
    using mask_classes_entries(2) [OF cols k] by blast
next
  fix i j assume "i < length outputs" "j < length (outputs ! i)"
    and "(k + 1) * N_CLASSES_PER_TASK dataset \<le> int j \<and>
         int j < N_TASKS dataset * N_CLASSES_PER_TASK dataset"
  then show "mask_classes outputs dataset k ! i ! j = NegInf"
    using mask_classes_entries(3) [OF cols k] by blast
next
  fix i j assume "i < length outputs" "j < length (outputs ! i)"
    and "k * N_CLASSES_PER_TASK dataset \<le> int j \<and>
         int j < (k + 1) * N_CLASSES_PER_TASK dataset"
  then show "mask_classes outputs dataset k ! i ! j = outputs ! i ! j"
    using mask_classes_entries(4) [OF cols k] by blast
qed

text \<open>
  The theorem on a row of seven columns for three tasks of two classes, masked for the
  task 1: the columns of the tasks 0 and 2 are minus infinity, those of the task 1 and the
  seventh column are kept.
\<close>

theorem mask_classes_masks_other_tasks_witness:
  "N_TASKS (demo_dataset\<lparr>N_TASKS := 3\<rparr>) * N_CLASSES_PER_TASK (demo_dataset\<lparr>N_TASKS := 3\<rparr>) = 6 \<and>
   mask_classes [[Fin 6, Fin 5, Fin 4, Fin 3, Fin 2, Fin 1, Fin 0]]
     (demo_dataset\<lparr>N_TASKS := 3\<rparr>) 1 =
   [[NegInf, NegInf, Fin 4, Fin 3, NegInf, NegInf, Fin 0]]"
  using mask_classes_masks_other_tasks
    [of "[[Fin 6, Fin 5, Fin 4, Fin 3, Fin 2, Fin 1, Fin 0]]" "demo_dataset\<lparr>N_TASKS := 3\<rparr>" 1]
  by (simp add: demo_dataset_def mask_classes_def set_slice_def slice_bound_def upt_rec)

section \<open>Properties of evaluate\<close>

subsection \<open>The loop over the batches\<close>

text \<open>
  With a saliency network every batch that the loop passes appends one entry to
  \<^verbatim>\<open>sal_scores\<close>, the metrics of that batch; without one the list is left as it is.
\<close>

lemma eval_batch_scores:
  assumes "eval_batch env m ds k (c, cm, n, sal) data = Inr (c', cm', n', sal')"
  shows "case saliency_net_training m of
           None \<Rightarrow> sal' = sal
         | Some b \<Rightarrow> \<exists>s. sal' = sal @ [s] \<and> batch_scores env m (k, data) s"
  using assms
  by (auto simp: eval_batch_def saliency_step_def batch_scores_def Let_def
      split: option.splits inputs.splits if_splits sum.splits prod.splits)

lemma eval_batches_scores:
  assumes "eval_batches env m ds k l (c, cm, n, sal) = Inr (c', cm', n', sal')"
  shows "case saliency_net_training m of
           None \<Rightarrow> sal' = sal
         | Some b \<Rightarrow> \<exists>new. sal' = sal @ new \<and> list_all2 (batch_scores env m) (map (Pair k) l) new"
  using assms
proof (induction l arbitrary: c cm n sal)
  case Nil
  then show ?case by (simp split: option.splits)
next
  case (Cons data l)
  from Cons.prems obtain c1 cm1 n1 sal1 where
    b: "eval_batch env m ds k (c, cm, n, sal) data = Inr (c1, cm1, n1, sal1)"
    and r: "eval_batches env m ds k l (c1, cm1, n1, sal1) = Inr (c', cm', n', sal')"
    by (auto split: sum.splits)
  show ?case
    using eval_batch_scores [OF b] Cons.IH [OF r]
    by (auto split: option.splits)
qed

lemma eval_loader_scores:
  assumes "eval_loader env m ds k l sal = Inr (a, b, sal')"
  shows "case saliency_net_training m of
           None \<Rightarrow> sal' = sal
         | Some b \<Rightarrow> \<exists>new. sal' = sal @ new \<and> list_all2 (batch_scores env m) (map (Pair k) l) new"
proof -
  from assms obtain c cm n where
    "eval_batches env m ds k l (0, 0, 0, sal) = Inr (c, cm, n, sal')"
    by (auto simp: eval_loader_def split: sum.splits prod.splits if_splits)
  then show ?thesis by (rule eval_batches_scores)
qed

text \<open>
  Lines 102 to 106, when they return: there is a first entry, and the score of each metric
  is the mean over the entries of all batches.
\<close>

lemma final_scores_returns:
  assumes "final_scores env sal = Inr scores"
  shows "sal \<noteq> [] \<and> length scores = length (hd sal) \<and>
         (\<forall>i < length scores. scores ! i = mean_cat env (map (\<lambda>s. s ! i) sal))"
  using assms by (auto simp: final_scores_def split: list.splits if_splits)

subsection \<open>The loop over the test loaders\<close>

text \<open>
  What a run of the loop that returns has appended: one pair of accuracies for every
  loader that is not skipped, in the order of the loaders, each the result of
  \<open>eval_loader\<close> on that loader. \<^verbatim>\<open>final_sal_scores\<close> is left as it was when every
  loader is skipped, and bound to the result of \<open>final_scores\<close> otherwise when there is a
  saliency network.
\<close>

lemma eval_loaders_shape:
  assumes "eval_loaders env m ds lo kls (accs, am, sal, fin) = Inr (accs', am', sal', fin')"
  shows "\<exists>new newm. accs' = accs @ new \<and> am' = am @ newm \<and> length new = length newm \<and>
     list_all2
       (\<lambda>kl ab. \<exists>s0 s1. eval_loader env m ds (fst kl) (snd kl) s0 = Inr (fst ab, snd ab, s1))
       (filter (\<lambda>kl. \<not> skipped ds lo (fst kl)) kls) (zip new newm) \<and>
     (filter (\<lambda>kl. \<not> skipped ds lo (fst kl)) kls = [] \<longrightarrow> fin' = fin) \<and>
     (filter (\<lambda>kl. \<not> skipped ds lo (fst kl)) kls \<noteq> [] \<longrightarrow> saliency_net_training m \<noteq> None \<longrightarrow>
        (\<exists>scores s. fin' = Some scores \<and> final_scores env s = Inr scores))"
  using assms
proof (induction kls arbitrary: accs am sal fin)
  case Nil
  then show ?case by simp
next
  case (Cons kl kls)
  obtain k l where kl: "kl = (k, l)" by (cases kl)
  show ?case
  proof (cases "skipped ds lo k")
    case True
    then have "eval_loaders env m ds lo kls (accs, am, sal, fin) = Inr (accs', am', sal', fin')"
      using Cons.prems by (simp add: kl)
    from Cons.IH [OF this] show ?thesis using True by (simp add: kl)
  next
    case False
    from Cons.prems False obtain acc accm sal1 where
      el: "eval_loader env m ds k l sal = Inr (acc, accm, sal1)"
      by (auto simp: kl split: sum.splits)
    show ?thesis
    proof (cases "saliency_net_training m")
      case None
      then have "eval_loaders env m ds lo kls (accs @ [acc], am @ [accm], sal1, fin) =
                 Inr (accs', am', sal', fin')"
        using Cons.prems False el by (simp add: kl)
      from Cons.IH [OF this] obtain new newm where
        n: "accs' = (accs @ [acc]) @ new" "am' = (am @ [accm]) @ newm"
          "length new = length newm"
          "list_all2
             (\<lambda>kl ab. \<exists>s0 s1. eval_loader env m ds (fst kl) (snd kl) s0 = Inr (fst ab, snd ab, s1))
             (filter (\<lambda>kl. \<not> skipped ds lo (fst kl)) kls) (zip new newm)"
        by blast
      show ?thesis
        apply (rule exI [of _ "acc # new"], rule exI [of _ "accm # newm"])
        using n False el None by (auto simp: kl)
    next
      case (Some b)
      from Cons.prems False el Some obtain scores where
        fs: "final_scores env sal1 = Inr scores"
        by (auto simp: kl split: sum.splits)
      then have "eval_loaders env m ds lo kls (accs @ [acc], am @ [accm], sal1, Some scores) =
                 Inr (accs', am', sal', fin')"
        using Cons.prems False el Some by (simp add: kl)
      from Cons.IH [OF this] obtain new newm where
        n: "accs' = (accs @ [acc]) @ new" "am' = (am @ [accm]) @ newm"
          "length new = length newm"
          "list_all2
             (\<lambda>kl ab. \<exists>s0 s1. eval_loader env m ds (fst kl) (snd kl) s0 = Inr (fst ab, snd ab, s1))
             (filter (\<lambda>kl. \<not> skipped ds lo (fst kl)) kls) (zip new newm)"
        and f: "filter (\<lambda>kl. \<not> skipped ds lo (fst kl)) kls = [] \<longrightarrow> fin' = Some scores"
          "filter (\<lambda>kl. \<not> skipped ds lo (fst kl)) kls \<noteq> [] \<longrightarrow> saliency_net_training m \<noteq> None \<longrightarrow>
             (\<exists>scores s. fin' = Some scores \<and> final_scores env s = Inr scores)"
        by blast
      show ?thesis
        apply (rule exI [of _ "acc # new"], rule exI [of _ "accm # newm"])
        using n f False el Some fs by (auto simp: kl)
    qed
  qed
qed

text \<open>
  \<^verbatim>\<open>sal_scores\<close> after the loop: the entries of the batches of the loaders that are not
  skipped, in the order of the loop, after the entries it had.
\<close>

lemma eval_loaders_scores:
  assumes "eval_loaders env m ds lo kls (accs, am, sal, fin) = Inr (accs', am', sal', fin')"
  shows "case saliency_net_training m of
           None \<Rightarrow> sal' = sal
         | Some b \<Rightarrow> \<exists>new. sal' = sal @ new \<and>
             list_all2 (batch_scores env m)
               (concat (map (\<lambda>kl. map (Pair (fst kl)) (snd kl))
                  (filter (\<lambda>kl. \<not> skipped ds lo (fst kl)) kls))) new"
  using assms
proof (induction kls arbitrary: accs am sal fin)
  case Nil
  then show ?case by (simp split: option.splits)
next
  case (Cons kl kls)
  obtain k l where kl: "kl = (k, l)" by (cases kl)
  show ?case
  proof (cases "skipped ds lo k")
    case True
    then have "eval_loaders env m ds lo kls (accs, am, sal, fin) = Inr (accs', am', sal', fin')"
      using Cons.prems by (simp add: kl)
    from Cons.IH [OF this] show ?thesis using True by (auto simp: kl split: option.splits)
  next
    case False
    from Cons.prems False obtain acc accm sal1 fin1 where
      el: "eval_loader env m ds k l sal = Inr (acc, accm, sal1)"
      and r: "eval_loaders env m ds lo kls (accs @ [acc], am @ [accm], sal1, fin1) =
                Inr (accs', am', sal', fin')"
      by (auto simp: kl split: sum.splits option.splits)
    show ?thesis
    proof (cases "saliency_net_training m")
      case None
      then show ?thesis
        using eval_loader_scores [OF el] Cons.IH [OF r] by simp
    next
      case (Some b)
      from eval_loader_scores [OF el] Some obtain new1 where
        n1: "sal1 = sal @ new1" "list_all2 (batch_scores env m) (map (Pair k) l) new1"
        by auto
      from Cons.IH [OF r] Some obtain new2 where
        n2: "sal' = sal1 @ new2"
          "list_all2 (batch_scores env m)
               (concat (map (\<lambda>kl. map (Pair (fst kl)) (snd kl))
                  (filter (\<lambda>kl. \<not> skipped ds lo (fst kl)) kls))) new2"
        by auto
      have "list_all2 (batch_scores env m)
              (map (Pair k) l @ concat (map (\<lambda>kl. map (Pair (fst kl)) (snd kl))
                  (filter (\<lambda>kl. \<not> skipped ds lo (fst kl)) kls))) (new1 @ new2)"
        using n1(2) n2(2) by (rule list_all2_appendI)
      then show ?thesis
        using Some False n1(1) n2(1) by (simp add: kl)
    qed
  qed
qed

text \<open>
  \<^verbatim>\<open>final_sal_scores\<close> after the loop: what it was when every loader is skipped, and
  with a saliency network the scores of the whole of \<^verbatim>\<open>sal_scores\<close> otherwise.
\<close>

lemma eval_loaders_final:
  assumes "eval_loaders env m ds lo kls (accs, am, sal, fin) = Inr (accs', am', sal', fin')"
  shows "(filter (\<lambda>kl. \<not> skipped ds lo (fst kl)) kls = [] \<longrightarrow> fin' = fin \<and> sal' = sal) \<and>
         (filter (\<lambda>kl. \<not> skipped ds lo (fst kl)) kls \<noteq> [] \<longrightarrow> saliency_net_training m \<noteq> None \<longrightarrow>
            (\<exists>scores. fin' = Some scores \<and> final_scores env sal' = Inr scores))"
  using assms
proof (induction kls arbitrary: accs am sal fin)
  case Nil
  then show ?case by simp
next
  case (Cons kl kls)
  obtain k l where kl: "kl = (k, l)" by (cases kl)
  show ?case
  proof (cases "skipped ds lo k")
    case True
    then have "eval_loaders env m ds lo kls (accs, am, sal, fin) = Inr (accs', am', sal', fin')"
      using Cons.prems by (simp add: kl)
    from Cons.IH [OF this] show ?thesis using True by (simp add: kl)
  next
    case False
    from Cons.prems False obtain acc accm sal1 fin1 where
      el: "eval_loader env m ds k l sal = Inr (acc, accm, sal1)"
      and r: "eval_loaders env m ds lo kls (accs @ [acc], am @ [accm], sal1, fin1) =
                Inr (accs', am', sal', fin')"
      and f: "saliency_net_training m \<noteq> None \<longrightarrow>
                (\<exists>scores. fin1 = Some scores \<and> final_scores env sal1 = Inr scores)"
      by (auto simp: kl split: sum.splits option.splits)
    show ?thesis
      using Cons.IH [OF r] f False by (auto simp: kl)
  qed
qed

text \<open>A loader that is skipped leaves the locals of the loop.\<close>

lemma eval_loaders_append:
  "eval_loaders env m ds lo (kls1 @ kls2) st =
     (case eval_loaders env m ds lo kls1 st of
        Inl e \<Rightarrow> Inl e
      | Inr st1 \<Rightarrow> eval_loaders env m ds lo kls2 st1)"
proof (induction kls1 arbitrary: st)
  case Nil
  show ?case by simp
next
  case (Cons kl kls1)
  obtain k l where kl: "kl = (k, l)" by (cases kl)
  obtain accs am sal fin where st: "st = (accs, am, sal, fin)" by (cases st) auto
  show ?case
    by (simp add: kl st Cons.IH split: sum.splits option.splits prod.splits)
qed

lemma eval_loaders_all_skipped:
  "\<forall>kl \<in> set kls. skipped ds lo (fst kl) \<Longrightarrow> eval_loaders env m ds lo kls st = Inr st"
  by (induction kls) auto

lemma enumerate_snoc:
  "enumerate n (xs @ [x]) = enumerate n xs @ [(n + length xs, x)]"
  by (simp add: enumerate_append_eq)

text \<open>With \<^verbatim>\<open>last\<close> the loop is the loop over the last loader alone.\<close>

lemma eval_loaders_last_only:
  assumes "test_loaders ds \<noteq> []"
  shows "eval_loaders env m ds True (enumerate 0 (test_loaders ds)) st =
         eval_loaders env m ds True
           [(length (test_loaders ds) - 1, last (test_loaders ds))] st"
proof -
  let ?ls = "test_loaders ds"
  have split: "enumerate 0 ?ls = enumerate 0 (butlast ?ls) @ [(length ?ls - 1, last ?ls)]"
    using assms enumerate_snoc [of 0 "butlast ?ls" "last ?ls"] by simp
  have "\<forall>kl \<in> set (enumerate 0 (butlast ?ls)). skipped ds True (fst kl)"
    using assms by (auto simp: skipped_def in_set_enumerate_eq)
  then have "eval_loaders env m ds True (enumerate 0 (butlast ?ls)) st = Inr st"
    by (rule eval_loaders_all_skipped)
  then show ?thesis
    using split by (simp add: eval_loaders_append del: eval_loaders.simps)
qed

lemma not_skipped_last:
  "test_loaders ds \<noteq> [] \<Longrightarrow> \<not> skipped ds lo (length (test_loaders ds) - 1)"
  by (cases "test_loaders ds") (simp_all add: skipped_def)

lemma eval_loaders_single:
  assumes "eval_loaders env m ds lo [(k, l)] (accs, am, sal, fin) = Inr (accs', am', sal', fin')"
    and "\<not> skipped ds lo k"
  shows "\<exists>a b. eval_loader env m ds k l sal = Inr (a, b, sal') \<and>
               accs' = accs @ [a] \<and> am' = am @ [b]"
  using assms by (auto split: sum.splits option.splits)

lemma eval_loader_zero:
  "eval_loader env m ds k l s0 = Inr (a, b, s1) \<Longrightarrow> ''class-il'' \<notin> set (COMPATIBILITY m) \<Longrightarrow>
   a = 0"
  by (auto simp: eval_loader_def split: sum.splits prod.splits if_splits)

subsection \<open>The function\<close>

lemma eval_mode_simps:
  "net_training (eval_mode model) = False"
  "saliency_net_training (eval_mode model) = map_option (\<lambda>_. False) (saliency_net_training model)"
  "COMPATIBILITY (eval_mode model) = COMPATIBILITY model"
  "weights (eval_mode model) = weights model"
  "saliency_net_in_net (eval_mode model) = saliency_net_in_net model"
  "net_in_saliency_net (eval_mode model) = net_in_saliency_net model"
  "eval_mode (eval_mode model) = eval_mode model"
  by (simp_all add: eval_mode_def option.map_comp comp_def)

lemma net_mode_simps:
  "net_training (net_mode b model) = b"
  "saliency_net_training (net_mode b model) =
     (if saliency_net_in_net model then map_option (\<lambda>_. b) (saliency_net_training model)
      else saliency_net_training model)"
  "saliency_net_in_net (net_mode b model) = saliency_net_in_net model"
  "net_in_saliency_net (net_mode b model) = net_in_saliency_net model"
  "COMPATIBILITY (net_mode b model) = COMPATIBILITY model"
  "has_begin_task (net_mode b model) = has_begin_task model"
  "has_end_task (net_mode b model) = has_end_task model"
  "has_saliency_scheduler (net_mode b model) = has_saliency_scheduler model"
  "n_epochs (net_mode b model) = n_epochs model"
  "has_buffer_size (net_mode b model) = has_buffer_size model"
  "weights (net_mode b model) = weights model"
  by (simp_all add: net_mode_def)

text \<open>After the lines 50 to 54 every network of the model is in the evaluation mode.\<close>

lemma loop_model:
  "(case saliency_net_training (net_mode False model) of
      None \<Rightarrow> net_mode False model
    | Some x \<Rightarrow> saliency_net_mode False (net_mode False model)) = eval_mode model"
  by (cases "saliency_net_training model")
    (simp_all add: net_mode_def saliency_net_mode_def eval_mode_def)

text \<open>
  The function in one equation: the loop runs on the model in the evaluation mode; an
  exception of the loop leaves that model, and a loop that returns leaves
  \<open>left_by_evaluate\<close> of the model of the call.
\<close>

lemma evaluate_eq:
  "evaluate env model dataset lo =
     (case eval_loaders env (eval_mode model) dataset lo (enumerate 0 (test_loaders dataset))
             ([], [], [], None) of
        Inl e \<Rightarrow> (Inl e, eval_mode model)
      | Inr (accs, am, sal, fin) \<Rightarrow>
          (case saliency_net_training model of
             None \<Rightarrow> (Inr (Tuple2 accs am), left_by_evaluate model)
           | Some b \<Rightarrow>
               (case fin of
                  None \<Rightarrow> (Inl UnboundLocalError, left_by_evaluate model)
                | Some scores \<Rightarrow> (Inr (Tuple3 accs am scores), left_by_evaluate model))))"
proof (cases "saliency_net_training model")
  case None
  then have em: "net_mode False model = eval_mode model"
    by (simp add: eval_mode_def net_mode_def)
  have restored: "net_mode (net_training model) (eval_mode model) = model"
    using None by (simp add: eval_mode_def net_mode_def)
  have s: "saliency_net_training (eval_mode model) = None"
    using None by (simp add: eval_mode_def)
  show ?thesis
    using None
    by (simp add: evaluate_def Let_def em s restored left_by_evaluate_def
        split: sum.splits prod.splits)
next
  case (Some b)
  have em: "saliency_net_mode False (net_mode False model) = eval_mode model"
    using Some by (simp add: eval_mode_def net_mode_def saliency_net_mode_def)
  have s: "saliency_net_training (net_mode False model) =
             Some (\<not> saliency_net_in_net model \<and> b)"
    using Some by (simp add: net_mode_def)
  have restored: "saliency_net_mode (\<not> saliency_net_in_net model \<and> b)
                (net_mode (net_training model) (eval_mode model)) = left_by_evaluate model"
    using Some by (simp add: eval_mode_def net_mode_def saliency_net_mode_def left_by_evaluate_def)
  show ?thesis
    using Some
    by (simp add: evaluate_def Let_def em s restored
        split: sum.splits prod.splits option.splits)
qed

text \<open>
  A call of \<^verbatim>\<open>evaluate\<close> that returns: the loop ran on the model in the evaluation mode
  and returned, and the result is the pair or the triple of the locals.
\<close>

lemma evaluate_returns:
  assumes "evaluate env model dataset lo = (Inr r, model')"
  shows "\<exists>accs am sal fin.
     eval_loaders env (eval_mode model) dataset lo (enumerate 0 (test_loaders dataset))
       ([], [], [], None) = Inr (accs, am, sal, fin) \<and>
     model' = left_by_evaluate model \<and> item0 r = accs \<and> item1 r = am \<and>
     (case saliency_net_training model of
        None \<Rightarrow> r = Tuple2 accs am
      | Some b \<Rightarrow> \<exists>scores. fin = Some scores \<and> r = Tuple3 accs am scores)"
  using assms
  by (auto simp: evaluate_eq split: sum.splits prod.splits option.splits)

text \<open>
  The model that a call leaves differs from the model of the call in the modes of its
  networks at most, and not at all when there is no saliency network or when the two
  networks are modules of their own. A second call on it returns the same and leaves it.
\<close>

lemma left_by_evaluate_simps:
  "eval_mode (left_by_evaluate model) = eval_mode model"
  "left_by_evaluate (left_by_evaluate model) = left_by_evaluate model"
  "saliency_net_training (left_by_evaluate model) =
     map_option (\<lambda>b. \<not> saliency_net_in_net model \<and> b) (saliency_net_training model)"
  "net_training (left_by_evaluate model) =
     (case saliency_net_training model of
        None \<Rightarrow> net_training model
      | Some b \<Rightarrow> if net_in_saliency_net model then \<not> saliency_net_in_net model \<and> b
                  else net_training model)"
  by (cases "saliency_net_training model"; simp add: left_by_evaluate_def eval_mode_def)+

lemma left_by_evaluate_separate:
  "saliency_net_training model = None \<or>
   \<not> saliency_net_in_net model \<and> \<not> net_in_saliency_net model \<Longrightarrow>
   left_by_evaluate model = model"
  by (cases "saliency_net_training model") (auto simp: left_by_evaluate_def)

lemma evaluate_again:
  assumes "evaluate env model dataset lo = (Inr r, model')"
  shows "evaluate env model' dataset lo = (Inr r, model')"
proof -
  from assms have m: "model' = left_by_evaluate model"
    and e: "evaluate env model dataset lo = (Inr r, left_by_evaluate model)"
    using evaluate_returns [OF assms] by auto
  have n: "saliency_net_training (left_by_evaluate model) = None \<longleftrightarrow>
           saliency_net_training model = None"
    by (simp add: left_by_evaluate_simps)
  show ?thesis
    using e unfolding m
    by (cases "saliency_net_training model")
      (auto simp: evaluate_eq left_by_evaluate_simps split: sum.splits prod.splits option.splits)
qed

text \<open>With \<^verbatim>\<open>last\<close> the result is the pair of the accuracies of the last loader.\<close>

lemma evaluate_last_only:
  assumes "evaluate env model dataset True = (Inr r, model')"
    and "test_loaders dataset \<noteq> []"
  shows "\<exists>a b s1.
     eval_loader env (eval_mode model) dataset (length (test_loaders dataset) - 1)
       (last (test_loaders dataset)) [] = Inr (a, b, s1) \<and>
     item0 r = [a] \<and> item1 r = [b]"
proof -
  let ?ls = "test_loaders dataset"
  from evaluate_returns [OF assms(1)] obtain sal fin where
    "eval_loaders env (eval_mode model) dataset True (enumerate 0 ?ls) ([], [], [], None) =
       Inr (item0 r, item1 r, sal, fin)"
    by blast
  then have "eval_loaders env (eval_mode model) dataset True [(length ?ls - 1, last ?ls)]
      ([], [], [], None) = Inr (item0 r, item1 r, sal, fin)"
    using eval_loaders_last_only [OF assms(2), of env "eval_mode model" "([], [], [], None)"]
    by simp
  from eval_loaders_single [OF this not_skipped_last [OF assms(2)]]
  show ?thesis by auto
qed

subsection \<open>The function on the small run\<close>

lemma demo_loaded_eq:
  "demo_loaded =
     demo_dataset\<lparr>test_loaders := [[(Multi [0, 1], [0])], [(Multi [1, 1], [2])]]\<rparr>"
  by (simp add: demo_loaded_def demo_env_def demo_dataset_def)

lemmas demo_simps =
  demo_loaded_eq demo_env_def demo_dataset_def demo_model_def demo_argmax_def
  evaluate_def net_mode_def saliency_net_mode_def
  eval_loader_def eval_batch_def saliency_step_def forward_task_def
  final_scores_def count_equal_def mask_classes_def set_slice_def slice_bound_def skipped_def
  enumerate_eq_zip Let_def upt_rec

lemma evaluate_demo_all:
  "evaluate demo_env demo_model demo_loaded False =
     (Inr (Tuple2 [100, 0] [100, 100]), demo_model)"
  by (simp add: demo_simps)

lemma evaluate_demo_last:
  "evaluate demo_env demo_model demo_loaded True = (Inr (Tuple2 [0] [100]), demo_model)"
  by (simp add: demo_simps)

lemma evaluate_demo_saliency:
  "evaluate demo_env (demo_model\<lparr>saliency_net_training := Some True\<rparr>) demo_loaded False =
     (Inr (Tuple3 [100, 0] [100, 100] [15 / 2, 1, 17 / 2]),
      demo_model\<lparr>saliency_net_training := Some True\<rparr>)"
  by (simp add: demo_simps)

lemma evaluate_demo_task_il:
  "evaluate demo_env (demo_model\<lparr>COMPATIBILITY := [''task-il'']\<rparr>) demo_loaded False =
     (Inr (Tuple2 [0, 0] [100, 100]), demo_model\<lparr>COMPATIBILITY := [''task-il'']\<rparr>)"
  by (simp add: demo_simps)

lemma demo_loaded_length: "length (test_loaders demo_loaded) = 2"
  by (simp add: demo_loaded_eq)

lemma demo_model_fields:
  "net_training demo_model = True"
  "saliency_net_training demo_model = None"
  by (simp_all add: demo_model_def)

lemma demo_mean: "mean_cat demo_env [7, 8] = 15 / 2"
  by (simp add: demo_env_def)

subsection \<open>The training mode\<close>

text \<open>
  The modes after a call that returns. The flag of \<^verbatim>\<open>model.net\<close> is the one of before the
  call unless \<^verbatim>\<open>model.net\<close> is the saliency network or one of its submodules; the flag of
  a saliency network is the one of before the call unless the saliency network is
  \<^verbatim>\<open>model.net\<close> or one of its submodules, and then it is false.
\<close>

lemma evaluate_modes:
  assumes "evaluate env model dataset last_only = (Inr r, model')"
  shows "model' = left_by_evaluate model"
    and "\<not> net_in_saliency_net model \<or> saliency_net_training model = None \<Longrightarrow>
         net_training model' = net_training model"
    and "saliency_net_training model' =
           map_option (\<lambda>b. \<not> saliency_net_in_net model \<and> b) (saliency_net_training model)"
  using evaluate_returns [OF assms]
  by (auto simp: left_by_evaluate_simps split: option.splits)

text \<open>
  When the model has no saliency network, or the two networks are modules of their own, a
  call that returns leaves the model as it was before the call.
\<close>

lemma evaluate_restores_separate_modules:
  assumes "evaluate env model dataset last_only = (Inr r, model')"
    and "saliency_net_training model = None \<or>
         \<not> saliency_net_in_net model \<and> \<not> net_in_saliency_net model"
  shows "model' = model"
  using evaluate_returns [OF assms(1)] left_by_evaluate_separate [OF assms(2)] by auto

text \<open>
  Every forward call of \<open>evaluate\<close> is made on the model in the evaluation mode: the
  function does the same when the collaborators are given that model at every call.
\<close>

lemma seen_in_eval_mode_simps:
  "eval_mode m = m \<Longrightarrow> forward (seen_in_eval_mode env) m = forward env m"
  "eval_mode m = m \<Longrightarrow> forward_saliency (seen_in_eval_mode env) m = forward_saliency env m"
  "torch_max (seen_in_eval_mode env) = torch_max env"
  "compute_saliency_metrics (seen_in_eval_mode env) = compute_saliency_metrics env"
  "mean_cat (seen_in_eval_mode env) = mean_cat env"
  by (simp_all add: seen_in_eval_mode_def)

lemma eval_batch_eval_mode:
  "eval_mode m = m \<Longrightarrow>
   eval_batch (seen_in_eval_mode env) m ds k st data = eval_batch env m ds k st data"
  by (cases st, cases data)
    (simp add: eval_batch_def saliency_step_def Let_def seen_in_eval_mode_simps
      split: option.splits inputs.splits)

lemma eval_batches_eval_mode:
  "eval_mode m = m \<Longrightarrow>
   eval_batches (seen_in_eval_mode env) m ds k l st = eval_batches env m ds k l st"
  by (induction l arbitrary: st) (simp_all add: eval_batch_eval_mode split: sum.splits)

lemma eval_loader_eval_mode:
  "eval_mode m = m \<Longrightarrow>
   eval_loader (seen_in_eval_mode env) m ds k l sal = eval_loader env m ds k l sal"
  by (simp add: eval_loader_def eval_batches_eval_mode)

lemma final_scores_eval_mode:
  "final_scores (seen_in_eval_mode env) sal = final_scores env sal"
  by (simp add: final_scores_def seen_in_eval_mode_simps split: list.splits)

lemma eval_loaders_eval_mode:
  "eval_mode m = m \<Longrightarrow>
   eval_loaders (seen_in_eval_mode env) m ds lo kls st = eval_loaders env m ds lo kls st"
proof (induction kls arbitrary: st)
  case Nil
  show ?case by simp
next
  case (Cons kl kls)
  obtain k l where kl: "kl = (k, l)" by (cases kl)
  obtain accs am sal fin where st: "st = (accs, am, sal, fin)" by (cases st) auto
  show ?case
    using Cons.prems
    by (simp add: kl st Cons.IH eval_loader_eval_mode final_scores_eval_mode
        split: sum.splits option.splits prod.splits)
qed

lemma evaluate_in_eval_mode:
  "evaluate (seen_in_eval_mode env) model dataset last_only =
   evaluate env model dataset last_only"
  by (simp add: evaluate_eq eval_loaders_eval_mode eval_mode_simps)

text \<open>
  C8. The function does not restore the mode of a saliency network that is a submodule of
  \<^verbatim>\<open>model.net\<close>: line 53 reads \<^verbatim>\<open>sal_status\<close> after line 50 has switched
  \<^verbatim>\<open>model.net\<close> and its submodules to the evaluation mode, so the mode that line 110
  sets is the evaluation mode. On the small run, for a model whose saliency network is a
  submodule of \<^verbatim>\<open>model.net\<close> and whose two networks are in the training mode before the
  call, the call returns the accuracies and the scores, \<open>net_training\<close> is true after the
  call as it was before, and \<open>saliency_net_training\<close>, true before the call, is false
  after it.
\<close>

theorem evaluate_nested_saliency_net:
  "evaluate demo_env
     (demo_model\<lparr>saliency_net_training := Some True, saliency_net_in_net := True\<rparr>)
     demo_loaded False =
     (Inr (Tuple3 [100, 0] [100, 100] [15 / 2, 1, 17 / 2]),
      demo_model\<lparr>saliency_net_training := Some False, saliency_net_in_net := True\<rparr>) \<and>
   net_training
     (demo_model\<lparr>saliency_net_training := Some True, saliency_net_in_net := True\<rparr>) = True \<and>
   saliency_net_training
     (demo_model\<lparr>saliency_net_training := Some True, saliency_net_in_net := True\<rparr>) =
     Some True \<and>
   net_training
     (snd (evaluate demo_env
        (demo_model\<lparr>saliency_net_training := Some True, saliency_net_in_net := True\<rparr>)
        demo_loaded False)) = True \<and>
   saliency_net_training
     (snd (evaluate demo_env
        (demo_model\<lparr>saliency_net_training := Some True, saliency_net_in_net := True\<rparr>)
        demo_loaded False)) = Some False"
  by (simp add: demo_simps)

subsection \<open>The accuracy lists\<close>

text \<open>
  C9. The two accuracy lists that \<open>evaluate\<close> returns have the same length. Without
  \<^verbatim>\<open>last\<close> the length is the number of the test loaders, and the entries \<open>k\<close> of the two
  lists are the accuracies of the test loader \<open>k\<close>. With \<^verbatim>\<open>last\<close> and at least one test
  loader the length is 1, and the entries are the accuracies of the last loader. When
  \<^verbatim>\<open>'class-il'\<close> is not in \<open>COMPATIBILITY\<close> every class-il entry is 0.
\<close>

theorem evaluate_accuracy_lists:
  assumes "evaluate env model dataset last_only = (Inr r, model')"
  shows "length (item0 r) = length (item1 r) \<and>
         (\<not> last_only \<longrightarrow>
            length (item0 r) = length (test_loaders dataset) \<and>
            (\<forall>k < length (test_loaders dataset). \<exists>s0 s1.
               eval_loader env (eval_mode model) dataset k (test_loaders dataset ! k) s0 =
                 Inr (item0 r ! k, item1 r ! k, s1))) \<and>
         (last_only \<and> test_loaders dataset \<noteq> [] \<longrightarrow>
            length (item0 r) = 1 \<and>
            (\<exists>s1. eval_loader env (eval_mode model) dataset (length (test_loaders dataset) - 1)
                     (last (test_loaders dataset)) [] =
                   Inr (item0 r ! 0, item1 r ! 0, s1))) \<and>
         (''class-il'' \<notin> set (COMPATIBILITY model) \<longrightarrow> (\<forall>a \<in> set (item0 r). a = 0))"
proof -
  let ?m = "eval_mode model" and ?ls = "test_loaders dataset"
  let ?P = "\<lambda>kl ab. \<exists>s0 s1. eval_loader env ?m dataset (fst kl) (snd kl) s0 =
                               Inr (fst ab, snd ab, s1)"
  let ?done = "filter (\<lambda>kl. \<not> skipped dataset last_only (fst kl)) (enumerate 0 ?ls)"
  from evaluate_returns [OF assms] obtain sal fin where
    run: "eval_loaders env ?m dataset last_only (enumerate 0 ?ls) ([], [], [], None) =
            Inr (item0 r, item1 r, sal, fin)"
    by blast
  from eval_loaders_shape [OF run] have
    len: "length (item0 r) = length (item1 r)"
    and all2: "list_all2 ?P ?done (zip (item0 r) (item1 r))"
    by auto
  have nth: "?P (?done ! i) (item0 r ! i, item1 r ! i)" if "i < length (item0 r)" for i
    using list_all2_nthD2 [OF all2, of i] that len by simp
  have len_done: "length ?done = length (item0 r)"
    using list_all2_lengthD [OF all2] len by simp
  have all: "length (item0 r) = length ?ls \<and>
        (\<forall>k < length ?ls. \<exists>s0 s1.
           eval_loader env ?m dataset k (?ls ! k) s0 = Inr (item0 r ! k, item1 r ! k, s1))"
    if "\<not> last_only"
  proof -
    have d: "?done = enumerate 0 ?ls"
      using that by (simp add: skipped_def)
    have l: "length (item0 r) = length ?ls"
      using len_done d by simp
    show ?thesis
      using l nth d by (auto simp: nth_enumerate_eq)
  qed
  have one: "length (item0 r) = 1 \<and>
        (\<exists>s1. eval_loader env ?m dataset (length ?ls - 1) (last ?ls) [] =
               Inr (item0 r ! 0, item1 r ! 0, s1))"
    if "last_only" "?ls \<noteq> []"
  proof -
    have "eval_loaders env ?m dataset True [(length ?ls - 1, last ?ls)] ([], [], [], None) =
          Inr (item0 r, item1 r, sal, fin)"
      using run that eval_loaders_last_only [OF that(2), of env ?m "([], [], [], None)"]
      by simp
    from eval_loaders_single [OF this not_skipped_last [OF that(2)]]
    show ?thesis
      by auto
  qed
  have zero: "a = 0" if c: "''class-il'' \<notin> set (COMPATIBILITY model)" and a: "a \<in> set (item0 r)"
    for a
  proof -
    from a obtain i where i: "i < length (item0 r)" "a = item0 r ! i"
      by (auto simp: in_set_conv_nth)
    from nth [OF i(1)] obtain s0 s1 where
      "eval_loader env ?m dataset (fst (?done ! i)) (snd (?done ! i)) s0 = Inr (a, item1 r ! i, s1)"
      using i(2) by auto
    then show ?thesis
      using c by (intro eval_loader_zero [of env ?m]) (simp_all add: eval_mode_simps)
  qed
  show ?thesis
    using len all one zero by blast
qed

text \<open>
  The theorem on the small run, without \<^verbatim>\<open>last\<close> for the model of the run, and the
  returned lists with \<^verbatim>\<open>last\<close> and for a model that is not compatible with class-il.
\<close>

theorem evaluate_accuracy_lists_witness:
  "fst (evaluate demo_env demo_model demo_loaded False) = Inr (Tuple2 [100, 0] [100, 100]) \<and>
   length (test_loaders demo_loaded) = 2 \<and>
   length (item0 (Tuple2 [100, 0] [100, 100])) = 2 \<and>
   length (item1 (Tuple2 [100, 0] [100, 100])) = 2 \<and>
   fst (evaluate demo_env demo_model demo_loaded True) = Inr (Tuple2 [0] [100]) \<and>
   fst (evaluate demo_env (demo_model\<lparr>COMPATIBILITY := [''task-il'']\<rparr>) demo_loaded False) =
     Inr (Tuple2 [0, 0] [100, 100])"
  using evaluate_accuracy_lists [OF evaluate_demo_all]
  by (simp add: evaluate_demo_all evaluate_demo_last evaluate_demo_task_il demo_loaded_length)

subsection \<open>The size of the returned tuple\<close>

text \<open>
  C10. When the model has a saliency network, \<open>evaluate\<close> returns a tuple of three
  components: the class-il accuracies and the task-il accuracies that the loop over the
  test loaders has appended, and the mean saliency scores. These are the scores of
  \<^verbatim>\<open>sal_scores\<close> as the loop leaves it, which holds the metrics of every evaluated batch
  in the order of the loop: one score for every metric of the first batch, the mean over the
  values of that metric in all the batches. Otherwise \<open>evaluate\<close> returns a tuple of
  two components: the class-il accuracies and the task-il accuracies that the loop has
  appended.
\<close>

theorem evaluate_tuple_size:
  assumes "evaluate env model dataset last_only = (Inr r, model')"
  shows "(saliency_net_training model \<noteq> None \<longrightarrow>
            len r = 3 \<and>
            (\<exists>accs accs_mask_classes sal_scores scores.
               eval_loaders env (eval_mode model) dataset last_only
                 (enumerate 0 (test_loaders dataset)) ([], [], [], None) =
                 Inr (accs, accs_mask_classes, sal_scores, Some scores) \<and>
               r = Tuple3 accs accs_mask_classes scores \<and>
               list_all2 (batch_scores env (eval_mode model))
                 (evaluated_batches dataset last_only) sal_scores \<and>
               sal_scores \<noteq> [] \<and>
               final_scores env sal_scores = Inr scores \<and>
               length scores = length (hd sal_scores) \<and>
               (\<forall>i < length scores.
                  scores ! i = mean_cat env (map (\<lambda>s. s ! i) sal_scores)))) \<and>
         (saliency_net_training model = None \<longrightarrow>
            len r = 2 \<and>
            (\<exists>accs accs_mask_classes sal_scores final_sal_scores.
               eval_loaders env (eval_mode model) dataset last_only
                 (enumerate 0 (test_loaders dataset)) ([], [], [], None) =
                 Inr (accs, accs_mask_classes, sal_scores, final_sal_scores) \<and>
               r = Tuple2 accs accs_mask_classes))"
proof (cases "saliency_net_training model")
  case None
  from evaluate_returns [OF assms] None obtain accs am sal fin where
    run: "eval_loaders env (eval_mode model) dataset last_only
            (enumerate 0 (test_loaders dataset)) ([], [], [], None) = Inr (accs, am, sal, fin)"
    and r: "r = Tuple2 accs am"
    by auto
  have pair: "\<exists>accs accs_mask_classes sal_scores final_sal_scores.
               eval_loaders env (eval_mode model) dataset last_only
                 (enumerate 0 (test_loaders dataset)) ([], [], [], None) =
                 Inr (accs, accs_mask_classes, sal_scores, final_sal_scores) \<and>
               r = Tuple2 accs accs_mask_classes"
    using run r by blast
  have "len r = 2"
    using r by simp
  then show ?thesis
    using None pair by simp
next
  case (Some b)
  let ?done = "filter (\<lambda>kl. \<not> skipped dataset last_only (fst kl))
                 (enumerate 0 (test_loaders dataset))"
  have sal_net: "saliency_net_training (eval_mode model) = Some False"
    using Some by (simp add: eval_mode_simps)
  from evaluate_returns [OF assms] Some obtain accs am sal scores where
    run: "eval_loaders env (eval_mode model) dataset last_only
            (enumerate 0 (test_loaders dataset)) ([], [], [], None) =
          Inr (accs, am, sal, Some scores)"
    and r: "r = Tuple3 accs am scores"
    by auto
  from eval_loaders_final [OF run] sal_net have
    fs: "final_scores env sal = Inr scores"
    by (cases "?done = []") auto
  from eval_loaders_scores [OF run] sal_net have
    all: "list_all2 (batch_scores env (eval_mode model))
            (evaluated_batches dataset last_only) sal"
    by (simp add: evaluated_batches_def)
  note mean = final_scores_returns [OF fs]
  have triple: "\<exists>accs accs_mask_classes sal_scores scores.
               eval_loaders env (eval_mode model) dataset last_only
                 (enumerate 0 (test_loaders dataset)) ([], [], [], None) =
                 Inr (accs, accs_mask_classes, sal_scores, Some scores) \<and>
               r = Tuple3 accs accs_mask_classes scores \<and>
               list_all2 (batch_scores env (eval_mode model))
                 (evaluated_batches dataset last_only) sal_scores \<and>
               sal_scores \<noteq> [] \<and>
               final_scores env sal_scores = Inr scores \<and>
               length scores = length (hd sal_scores) \<and>
               (\<forall>i < length scores.
                  scores ! i = mean_cat env (map (\<lambda>s. s ! i) sal_scores))"
    apply (rule exI [of _ accs], rule exI [of _ am], rule exI [of _ sal],
        rule exI [of _ scores])
    using run r all fs mean by simp
  have "len r = 3"
    using r by simp
  then show ?thesis
    using Some triple by simp
qed

text \<open>
  The theorem on the small run. For a model with a saliency network the two test loaders
  have one batch each, whose predictions are 7 and 8 and whose targets are 1: the scores
  are the means of 7 and 8, of 1 and 1, and of 8 and 9.
\<close>

theorem evaluate_tuple_size_witness:
  "fst (evaluate demo_env (demo_model\<lparr>saliency_net_training := Some True\<rparr>) demo_loaded False) =
     Inr (Tuple3 [100, 0] [100, 100] [15 / 2, 1, 17 / 2]) \<and>
   saliency_net_training (demo_model\<lparr>saliency_net_training := Some True\<rparr>) \<noteq> None \<and>
   len (Tuple3 [100, 0] [100, 100] [15 / 2, 1, 17 / 2]) = 3 \<and>
   mean_cat demo_env [7, 8] = 15 / 2 \<and>
   fst (evaluate demo_env demo_model demo_loaded False) = Inr (Tuple2 [100, 0] [100, 100]) \<and>
   saliency_net_training demo_model = None \<and>
   len (Tuple2 [100, 0] [100, 100]) = 2"
  using evaluate_tuple_size [OF evaluate_demo_saliency] evaluate_tuple_size [OF evaluate_demo_all]
  by (simp add: evaluate_demo_saliency evaluate_demo_all demo_model_fields demo_mean)

section \<open>The runs of train\<close>

subsection \<open>What a statement adds to the trace\<close>

text \<open>
  The statements are built from a few primitives, and \<open>emits\<close> follows their structure:
  a primitive adds the call it makes or nothing, and a sequence, a branch or a loop adds
  calls that satisfy \<open>P\<close> when its parts do.
\<close>

lemma emitsD: "emits P m \<Longrightarrow> m s = (r, s') \<Longrightarrow> \<exists>es. trace s' = trace s @ es \<and> list_all P es"
  by (simp add: emits_def)

lemma emits_ret: "emits P (ret x)"
  by (simp add: emits_def ret_def)

lemma emits_raise: "emits P (raise e)"
  by (simp add: emits_def raise_def)

lemma emits_emit: "P (p, e) \<Longrightarrow> emits P (emit p e)"
  by (auto simp: emits_def emit_def)

lemma emits_read_model: "emits P read_model"
  by (simp add: emits_def read_model_def)

lemma emits_write_model: "emits P (write_model m)"
  by (auto simp: emits_def write_model_def)

lemma emits_read_dataset: "emits P read_dataset"
  by (simp add: emits_def read_dataset_def)

lemma emits_write_dataset: "emits P (write_dataset d)"
  by (auto simp: emits_def write_dataset_def)

lemma emits_bnd:
  assumes "emits P m" and "\<And>x. emits P (f x)"
  shows "emits P (bnd m f)"
  unfolding emits_def
proof (intro allI impI)
  fix s r s' assume run: "bnd m f s = (r, s')"
  obtain r1 s1 where m: "m s = (r1, s1)" by (cases "m s")
  from emitsD [OF assms(1) m] obtain es1 where
    es1: "trace s1 = trace s @ es1" "list_all P es1" by blast
  show "\<exists>es. trace s' = trace s @ es \<and> list_all P es"
  proof (cases r1)
    case (Inl e)
    then show ?thesis using run m es1 by (auto simp: bnd_def)
  next
    case (Inr x)
    then have "f x s1 = (r, s')" using run m by (simp add: bnd_def)
    from emitsD [OF assms(2) this] obtain es2 where
      "trace s' = trace s1 @ es2" "list_all P es2" by blast
    then show ?thesis using es1 by auto
  qed
qed

lemma emits_lift: "emits P (lift r)"
  by (cases r) (simp_all add: lift_def emits_ret emits_raise)

lemma emits_only_when: "(b \<Longrightarrow> emits P m) \<Longrightarrow> emits P (only_when b m)"
  by (simp add: only_when_def emits_ret)

lemma emits_if: "(c \<Longrightarrow> emits P a) \<Longrightarrow> (\<not> c \<Longrightarrow> emits P b) \<Longrightarrow> emits P (if c then a else b)"
  by simp

lemma emits_block_Nil: "emits P (block [])"
  by (simp add: emits_ret)

lemma emits_block_Cons: "emits P m \<Longrightarrow> emits P (block ms) \<Longrightarrow> emits P (block (m # ms))"
  by (simp add: emits_bnd)

lemma emits_for_each: "(\<And>x. emits P (body x)) \<Longrightarrow> emits P (for_each xs body)"
  by (induction xs) (simp_all add: emits_ret emits_bnd)

lemma emits_for_acc: "(\<And>x a. emits P (body x a)) \<Longrightarrow> emits P (for_acc xs body acc)"
  by (induction xs arbitrary: acc) (simp_all add: emits_ret emits_bnd)

lemma emits_case_prod: "(\<And>a b. emits P (f a b)) \<Longrightarrow> emits P (case x of (a, b) \<Rightarrow> f a b)"
  by (cases x) simp

lemma emits_case_sum:
  "(\<And>a. emits P (f a)) \<Longrightarrow> (\<And>b. emits P (g b)) \<Longrightarrow> emits P (case x of Inl a \<Rightarrow> f a | Inr b \<Rightarrow> g b)"
  by (cases x) simp_all

lemmas emits_intros =
  emits_ret emits_raise emits_emit emits_read_model emits_write_model emits_read_dataset
  emits_write_dataset emits_bnd emits_lift emits_only_when emits_if emits_block_Nil
  emits_block_Cons emits_for_each emits_for_acc emits_case_prod emits_case_sum

text \<open>
  The start of a task and its training make calls of the training of this task only,
  whatever their outcome.
\<close>

lemma emits_net_train: "emits P net_train"
  unfolding net_train_def by (intro emits_intros)

lemma emits_call_evaluate_last: "emits (training_of t) (call_evaluate env t True)"
  unfolding call_evaluate_def by (intro emits_intros) simp

lemma emits_check_loss: "emits P (check_loss l)"
  unfolding check_loss_def by (auto split: loss.splits list.splits intro: emits_intros)

lemma emits_observe_batch: "emits (training_of t) (observe_batch env t epoch i data)"
  unfolding observe_batch_def
  by (intro emits_intros emits_check_loss) (auto split: train_batch.splits intro: emits_intros)

lemma emits_train_batches: "emits (training_of t) (train_batches env args t epoch ibs)"
  by (induction ibs) (auto intro!: emits_ret emits_bnd emits_observe_batch)

lemma emits_task_begin: "emits (training_of t) (task_begin env args t results rmc)"
  unfolding task_begin_def evaluate_before_task_def call_get_data_loaders_def call_begin_task_def
  by (intro emits_intros emits_net_train emits_call_evaluate_last) simp_all

lemma emits_task_train: "emits (training_of t) (task_train env args t train_loader)"
  unfolding task_train_def train_epoch_def call_end_task_def
  by (intro emits_intros emits_train_batches) simp_all

text \<open>A sequence that returns: its first statement returned, and then the rest did.\<close>

lemma bnd_returns:
  assumes "bnd m f s = (Inr y, s')"
  obtains x s1 where "m s = (Inr x, s1)" "f x s1 = (Inr y, s')"
  using assms by (auto simp: bnd_def split: prod.splits sum.splits)

subsection \<open>The statements without a training step\<close>

text \<open>The loop of line 143 returns, and adds one call for every round.\<close>

lemma load_copy_run:
  "\<exists>model1. for_each xs (\<lambda>t. block [net_train, emit Setup Copy_get_data_loaders]) s =
     (Inr (), s\<lparr>the_model := model1,
               trace := trace s @ replicate (length xs) (Setup, Copy_get_data_loaders)\<rparr>)"
proof (induction xs arbitrary: s)
  case Nil
  show ?case by (rule exI [of _ "the_model s"]) (simp add: ret_def)
next
  case (Cons x xs)
  let ?s1 = "s\<lparr>the_model := net_mode True (the_model s),
               trace := trace s @ [(Setup, Copy_get_data_loaders)]\<rparr>"
  have step: "block [net_train, emit Setup Copy_get_data_loaders] s = (Inr (), ?s1)"
    by (simp add: net_train_def bnd_def read_model_def write_model_def emit_def ret_def)
  from Cons.IH [of ?s1] obtain model1 where
    "for_each xs (\<lambda>t. block [net_train, emit Setup Copy_get_data_loaders]) ?s1 =
     (Inr (), ?s1\<lparr>the_model := model1,
               trace := trace ?s1 @ replicate (length xs) (Setup, Copy_get_data_loaders)\<rparr>)"
    by blast
  then show ?case
    using step by (intro exI [of _ model1]) (simp add: bnd_def replicate_app_Cons_same)
qed

text \<open>
  The lines 124 to 147 either fail the assertion of line 127 right after the first print, or
  return with the calls of \<open>setup_events\<close>; the dataset is not touched.
\<close>

lemma train_setup_fails:
  assumes "\<not> nowand args" "\<not> wandb_installed env"
  shows "train_setup env args s = (Inl AssertionError, s\<lparr>trace := trace s @ [(Setup, Print_args)]\<rparr>)"
  using assms
  by (simp add: train_setup_def only_when_def bnd_def emit_def raise_def)

lemma train_setup_run:
  assumes "nowand args \<or> wandb_installed env"
  shows "\<exists>model1. train_setup env args s =
     (Inr (), s\<lparr>the_model := model1,
               trace := trace s @ setup_events args (saliency_net_training (the_model s) \<noteq> None)
                 (nat (N_TASKS (the_dataset s)))\<rparr>)"
proof -
  let ?n = "nat (N_TASKS (the_dataset s))"
  have loop: "\<exists>model1. for_each [0..<?n] (\<lambda>t. block [net_train, emit Setup Copy_get_data_loaders]) s0 =
     (Inr (), s0\<lparr>the_model := model1,
               trace := trace s0 @ replicate ?n (Setup, Copy_get_data_loaders)\<rparr>)" for s0 :: "('a, 'b) world"
    using load_copy_run [of "[0..<?n]" s0] by simp
  show ?thesis
  proof (cases "ignore_other_metrics args")
    case True
    show ?thesis
      apply (rule exI [of _ "the_model s"])
      using assms True
      by (auto simp: train_setup_def setup_events_def only_when_def bnd_def emit_def ret_def
          read_model_def read_dataset_def)
  next
    case False
    let ?es = "[(Setup, Print_args)]
      @ (if nowand args then [] else [(Setup, Wandb_init), (Setup, Wandb_get_url)])
      @ [(Setup, Net_to_device)]
      @ (if saliency_net_training (the_model s) = None then [] else [(Setup, Saliency_net_to_device)])
      @ (if disable_log args then [] else [(Setup, Logger_create)])
      @ [(Setup, ProgressBar_create), (Setup, Get_dataset)]"
    from loop [of "s\<lparr>trace := trace s @ ?es\<rparr>"] obtain model1 where
      l: "for_each [0..<?n] (\<lambda>t. block [net_train, emit Setup Copy_get_data_loaders])
            (s\<lparr>trace := trace s @ ?es\<rparr>) =
          (Inr (), s\<lparr>trace := trace s @ ?es\<rparr>\<lparr>the_model := model1,
               trace := trace (s\<lparr>trace := trace s @ ?es\<rparr>) @ replicate ?n (Setup, Copy_get_data_loaders)\<rparr>)"
      by blast
    show ?thesis
      apply (rule exI [of _ model1])
      using assms False l
      by (auto simp: train_setup_def setup_events_def only_when_def bnd_def emit_def ret_def
          read_model_def read_dataset_def)
  qed
qed

text \<open>
  The report of a task and the lines after the loop change the trace only. A report that
  returns has not met the unbound \<^verbatim>\<open>logger\<close> of line 249.
\<close>

lemma task_report_run:
  assumes "task_report args t results rmc sal_metrics s = (Inr x, s')"
  shows "s' = s\<lparr>trace := trace s @ report_events args (saliency_net_training (the_model s) \<noteq> None)
            (has_buffer_size (the_model s)) t results rmc sal_metrics\<rparr>"
    and "\<not> (savecheck args \<and> disable_log args)"
    and "\<not> nowand args \<Longrightarrow> 3 \<le> length sal_metrics"
  using assms
  by (auto simp: task_report_def report_events_def only_when_def bnd_def emit_def ret_def
      raise_def read_model_def split: if_splits)

lemma train_finish_run:
  "train_finish args results rmc s =
     (Inr (), s\<lparr>trace := trace s @ finish_events args results rmc\<rparr>)"
  by (simp add: train_finish_def finish_events_def only_when_def bnd_def emit_def ret_def)

subsection \<open>The calls of evaluate\<close>

text \<open>
  A call of \<^verbatim>\<open>evaluate\<close> that returns is recorded with what it returned, and leaves the
  model as \<open>evaluate\<close> left it.
\<close>

lemma call_evaluate_run:
  assumes "call_evaluate env t last_only s = (Inr accs, s')"
  shows "evaluate env (the_model s) (the_dataset s) last_only = (Inr accs, the_model s')"
    and "s' = s\<lparr>the_model := the_model s', trace := trace s @ [(Task t, Evaluated last_only accs)]\<rparr>"
  using assms
  by (auto simp: call_evaluate_def bnd_def read_model_def read_dataset_def write_model_def
      emit_def ret_def raise_def split: prod.splits sum.splits)

lemma task_evaluate_run:
  assumes "task_evaluate env t results rmc s = (Inr (results', rmc', sal_metrics), s')"
  shows "\<exists>accs. evaluate env (the_model s) (the_dataset s) False = (Inr accs, the_model s') \<and>
           s' = s\<lparr>the_model := the_model s',
                   trace := trace s @ [(Task t, Evaluated False accs)]\<rparr> \<and>
           results' = results @ [item0 accs] \<and> rmc' = rmc @ [item1 accs]"
proof -
  from assms obtain accs s1 where
    c: "call_evaluate env t False s = (Inr accs, s1)"
    and r: "bnd read_model (\<lambda>model.
     ret (results @ [item0 accs], rmc @ [item1 accs],
          if saliency_net_training model \<noteq> None \<and> 2 < len accs
          then last_item accs else [0, 0, 0])) s1 = (Inr (results', rmc', sal_metrics), s')"
    unfolding task_evaluate_def by (rule bnd_returns)
  from r have "s' = s1" "results' = results @ [item0 accs]" "rmc' = rmc @ [item1 accs]"
    by (auto simp: bnd_def read_model_def ret_def)
  then show ?thesis
    using call_evaluate_run [OF c] by auto
qed

text \<open>The lines 155 to 158, when they return.\<close>

lemma extend_item_run:
  "extend_item xs i ys = Inr xs' \<longleftrightarrow> i < length xs \<and> xs' = xs[i := xs ! i @ ys]"
  by (auto simp: extend_item_def)

lemma lift_returns: "lift r s = (Inr x, s') \<longleftrightarrow> r = Inr x \<and> s' = s"
  by (cases r) (auto simp: lift_def ret_def raise_def)

lemma evaluate_before_task_run:
  assumes "evaluate_before_task env t results rmc s = (Inr (results1, rmc1), s')"
  shows "\<exists>accs. evaluate env (the_model s) (the_dataset s) True = (Inr accs, the_model s') \<and>
           s' = s\<lparr>the_model := the_model s',
                   trace := trace s @ [(Task t, Evaluated True accs)]\<rparr> \<and>
           t - 1 < length results \<and>
           results1 = results[t - 1 := results ! (t - 1) @ item0 accs] \<and>
           (if SETTING (the_dataset s) = ''class-il''
            then t - 1 < length rmc \<and> rmc1 = rmc[t - 1 := rmc ! (t - 1) @ item1 accs]
            else rmc1 = rmc)"
proof -
  from assms obtain accs s1 where
    c: "call_evaluate env t True s = (Inr accs, s1)"
    and r: "bnd (lift (extend_item results (t - 1) (item0 accs))) (\<lambda>results1.
     bnd read_dataset (\<lambda>dataset.
     if SETTING dataset = ''class-il''
     then bnd (lift (extend_item rmc (t - 1) (item1 accs)))
            (\<lambda>results_mask_classes1. ret (results1, results_mask_classes1))
     else ret (results1, rmc))) s1 = (Inr (results1, rmc1), s')"
    unfolding evaluate_before_task_def by (rule bnd_returns)
  note ce = call_evaluate_run [OF c]
  have ds: "the_dataset s1 = the_dataset s"
    by (subst ce(2)) simp
  from r obtain res1 s2 where
    l: "lift (extend_item results (t - 1) (item0 accs)) s1 = (Inr res1, s2)"
    and r2: "bnd read_dataset (\<lambda>dataset.
     if SETTING dataset = ''class-il''
     then bnd (lift (extend_item rmc (t - 1) (item1 accs)))
            (\<lambda>results_mask_classes1. ret (res1, results_mask_classes1))
     else ret (res1, rmc)) s2 = (Inr (results1, rmc1), s')"
    by (rule bnd_returns)
  from l have s2: "s2 = s1" and res1: "t - 1 < length results"
      "res1 = results[t - 1 := results ! (t - 1) @ item0 accs]"
    by (simp_all add: lift_returns extend_item_run)
  from r2 have "s' = s1 \<and> results1 = res1 \<and>
      (if SETTING (the_dataset s) = ''class-il''
       then t - 1 < length rmc \<and> rmc1 = rmc[t - 1 := rmc ! (t - 1) @ item1 accs]
       else rmc1 = rmc)"
    by (auto simp: s2 ds bnd_def read_dataset_def ret_def extend_item_def lift_def raise_def
        split: if_splits)
  then show ?thesis
    using ce res1 by auto
qed

subsection \<open>The body of the loop over the tasks\<close>

lemma net_train_run:
  "net_train s = (Inr (), s\<lparr>the_model := net_mode True (the_model s)\<rparr>)"
  by (simp add: net_train_def bnd_def read_model_def write_model_def)

lemma call_get_data_loaders_run:
  "call_get_data_loaders env t s =
     (Inr (fst (get_data_loaders env (the_dataset s))),
      s\<lparr>the_dataset := snd (get_data_loaders env (the_dataset s)),
        trace := trace s @ [(Task t, Get_data_loaders)]\<rparr>)"
  by (simp add: call_get_data_loaders_def bnd_def read_dataset_def write_dataset_def emit_def
      ret_def)

lemma call_begin_task_run:
  "call_begin_task env t s =
     (Inr (), if has_begin_task (the_model s)
              then s\<lparr>the_model := begin_task env (the_model s),
                     trace := trace s @ [(Task t, Begin_task)]\<rparr>
              else s)"
  by (simp add: call_begin_task_def only_when_def bnd_def read_model_def write_model_def
      emit_def ret_def)

text \<open>
  The lines 149 to 152 return. They leave the model in the training mode, after
  \<^verbatim>\<open>begin_task\<close> when the model has one, and the dataset at its next task.
\<close>

lemma task_begin_returns:
  assumes "task_begin env args t results rmc s = (Inr (train_loader, results1, rmc1), s')"
  obtains s1 where
    "the_model s1 =
       (if has_begin_task (the_model s)
        then begin_task env (net_mode True (the_model s))
        else net_mode True (the_model s))"
    "the_dataset s1 = snd (get_data_loaders env (the_dataset s))"
    "trace s1 = trace s @ (Task t, Get_data_loaders) #
                  (if has_begin_task (the_model s) then [(Task t, Begin_task)] else [])"
    "(if t \<noteq> 0 \<and> \<not> ignore_other_metrics args
      then evaluate_before_task env t results rmc
      else ret (results, rmc)) s1 = (Inr (results1, rmc1), s')"
proof -
  from assms obtain u sa where
    a: "net_train s = (Inr u, sa)"
    and ra: "bnd (call_get_data_loaders env t) (\<lambda>train_loader.
     bnd (call_begin_task env t) (\<lambda>_.
     bnd (if t \<noteq> 0 \<and> \<not> ignore_other_metrics args
          then evaluate_before_task env t results rmc
          else ret (results, rmc)) (\<lambda>(results1, results_mask_classes1).
     ret (train_loader, results1, results_mask_classes1)))) sa =
       (Inr (train_loader, results1, rmc1), s')"
    unfolding task_begin_def by (rule bnd_returns)
  from ra obtain tl sb where
    b: "call_get_data_loaders env t sa = (Inr tl, sb)"
    and rb: "bnd (call_begin_task env t) (\<lambda>_.
     bnd (if t \<noteq> 0 \<and> \<not> ignore_other_metrics args
          then evaluate_before_task env t results rmc
          else ret (results, rmc)) (\<lambda>(results1, results_mask_classes1).
     ret (tl, results1, results_mask_classes1))) sb =
       (Inr (train_loader, results1, rmc1), s')"
    by (rule bnd_returns)
  from rb obtain u2 sc where
    c: "call_begin_task env t sb = (Inr u2, sc)"
    and rc: "bnd (if t \<noteq> 0 \<and> \<not> ignore_other_metrics args
          then evaluate_before_task env t results rmc
          else ret (results, rmc)) (\<lambda>(results1, results_mask_classes1).
     ret (tl, results1, results_mask_classes1)) sc =
       (Inr (train_loader, results1, rmc1), s')"
    by (rule bnd_returns)
  from rc obtain x sd where
    d: "(if t \<noteq> 0 \<and> \<not> ignore_other_metrics args
          then evaluate_before_task env t results rmc
          else ret (results, rmc)) sc = (Inr x, sd)"
    and rd: "(case x of (results1, results_mask_classes1) \<Rightarrow>
     ret (tl, results1, results_mask_classes1)) sd = (Inr (train_loader, results1, rmc1), s')"
    by (rule bnd_returns)
  from rd have x: "x = (results1, rmc1)" "sd = s'"
    by (auto simp: ret_def split: prod.splits)
  have sa: "sa = s\<lparr>the_model := net_mode True (the_model s)\<rparr>"
    using a by (simp add: net_train_run)
  have sb: "sb = sa\<lparr>the_dataset := snd (get_data_loaders env (the_dataset sa)),
                    trace := trace sa @ [(Task t, Get_data_loaders)]\<rparr>"
    using b by (simp add: call_get_data_loaders_run)
  have sc: "sc = (if has_begin_task (the_model sb)
              then sb\<lparr>the_model := begin_task env (the_model sb),
                     trace := trace sb @ [(Task t, Begin_task)]\<rparr>
              else sb)"
    using c by (simp add: call_begin_task_run)
  show thesis
  proof (rule that [of sc])
    show "the_model sc =
       (if has_begin_task (the_model s)
        then begin_task env (net_mode True (the_model s))
        else net_mode True (the_model s))"
      by (simp add: sc sb sa net_mode_simps)
    show "the_dataset sc = snd (get_data_loaders env (the_dataset s))"
      by (simp add: sc sb sa net_mode_simps)
    show "trace sc = trace s @ (Task t, Get_data_loaders) #
                  (if has_begin_task (the_model s) then [(Task t, Begin_task)] else [])"
      by (simp add: sc sb sa net_mode_simps)
    show "(if t \<noteq> 0 \<and> \<not> ignore_other_metrics args
      then evaluate_before_task env t results rmc
      else ret (results, rmc)) sc = (Inr (results1, rmc1), s')"
      using d x by simp
  qed
qed

lemma task_begin_evaluates:
  assumes "t \<noteq> 0" "\<not> ignore_other_metrics args"
    and "task_begin env args t results rmc s = (Inr (train_loader, results1, rmc1), s')"
  shows "\<exists>accs.
     evaluate env
       (if has_begin_task (the_model s)
        then begin_task env (net_mode True (the_model s))
        else net_mode True (the_model s))
       (the_dataset s') True = (Inr accs, the_model s') \<and>
     the_dataset s' = snd (get_data_loaders env (the_dataset s)) \<and>
     trace s' = trace s @ (Task t, Get_data_loaders) #
                  (if has_begin_task (the_model s) then [(Task t, Begin_task)] else []) @
                  [(Task t, Evaluated True accs)] \<and>
     t - 1 < length results \<and>
     results1 = results[t - 1 := results ! (t - 1) @ item0 accs] \<and>
     (if SETTING (the_dataset s') = ''class-il''
      then t - 1 < length rmc \<and> rmc1 = rmc[t - 1 := rmc ! (t - 1) @ item1 accs]
      else rmc1 = rmc)"
proof -
  from assms(3) obtain s1 where
    s1: "the_model s1 =
       (if has_begin_task (the_model s)
        then begin_task env (net_mode True (the_model s))
        else net_mode True (the_model s))"
    "the_dataset s1 = snd (get_data_loaders env (the_dataset s))"
    "trace s1 = trace s @ (Task t, Get_data_loaders) #
                  (if has_begin_task (the_model s) then [(Task t, Begin_task)] else [])"
    and e: "evaluate_before_task env t results rmc s1 = (Inr (results1, rmc1), s')"
    using assms(1,2) by (auto elim!: task_begin_returns)
  from evaluate_before_task_run [OF e] obtain accs where
    a: "evaluate env (the_model s1) (the_dataset s1) True = (Inr accs, the_model s')"
      "s' = s1\<lparr>the_model := the_model s',
                  trace := trace s1 @ [(Task t, Evaluated True accs)]\<rparr>"
      "t - 1 < length results"
      "results1 = results[t - 1 := results ! (t - 1) @ item0 accs]"
      "if SETTING (the_dataset s1) = ''class-il''
       then t - 1 < length rmc \<and> rmc1 = rmc[t - 1 := rmc ! (t - 1) @ item1 accs]
       else rmc1 = rmc"
    by blast
  have ds: "the_dataset s' = the_dataset s1"
    by (subst a(2)) simp
  have tr: "trace s' = trace s1 @ [(Task t, Evaluated True accs)]"
    by (subst a(2)) simp
  show ?thesis
    apply (rule exI [of _ accs])
    using a(1,3,4,5) ds tr s1 by simp
qed

lemma list_all2_prefix_update:
  "i < length xs \<Longrightarrow> list_all2 prefix xs (xs[i := xs ! i @ ys])"
  by (auto simp: list_all2_conv_all_nth nth_list_update)

lemma list_all2_prefix_refl: "list_all2 prefix xs xs"
  by (simp add: list_all2_conv_all_nth)

text \<open>What the start of a task does to the trace and to the two lists, when it returns.\<close>

lemma task_begin_run:
  assumes "task_begin env args t results rmc s = (Inr (train_loader, results1, rmc1), s')"
  shows "\<exists>es. trace s' = trace s @ (Task t, Get_data_loaders) # es \<and>
           list_all (training_of t) es \<and>
           list_all2 prefix results results1 \<and> list_all2 prefix rmc rmc1"
proof (cases "t \<noteq> 0 \<and> \<not> ignore_other_metrics args")
  case True
  then have t: "t \<noteq> 0" and i: "\<not> ignore_other_metrics args" by simp_all
  from task_begin_evaluates [OF t i assms] obtain accs where
    a: "trace s' = trace s @ (Task t, Get_data_loaders) #
                  (if has_begin_task (the_model s) then [(Task t, Begin_task)] else []) @
                  [(Task t, Evaluated True accs)]"
      "t - 1 < length results"
      "results1 = results[t - 1 := results ! (t - 1) @ item0 accs]"
      "if SETTING (the_dataset s') = ''class-il''
       then t - 1 < length rmc \<and> rmc1 = rmc[t - 1 := rmc ! (t - 1) @ item1 accs]
       else rmc1 = rmc"
    by blast
  have "list_all2 prefix rmc rmc1"
    using a(4) by (auto simp: list_all2_prefix_update list_all2_prefix_refl split: if_splits)
  moreover have "list_all2 prefix results results1"
    using a(2,3) by (simp add: list_all2_prefix_update)
  ultimately show ?thesis
    using a(1) by auto
next
  case False
  from assms obtain s1 where
    "trace s1 = trace s @ (Task t, Get_data_loaders) #
                  (if has_begin_task (the_model s) then [(Task t, Begin_task)] else [])"
    "ret (results, rmc) s1 = (Inr (results1, rmc1), s')"
    using False by (auto elim!: task_begin_returns)
  then show ?thesis
    by (auto simp: ret_def list_all2_prefix_refl)
qed

text \<open>
  The body of the loop for the task \<open>t\<close>, when it returns: the calls of the start and of
  the training, the evaluation at the end of the task, whose accuracies are appended to the
  two lists, and the report.
\<close>

lemma task_run:
  assumes "task env args t (results, rmc) s = (Inr (results', rmc'), s')"
  shows "\<exists>es accs saliency buffer sal_metrics results1 rmc1.
     trace s' = trace s @ (Task t, Get_data_loaders) # es @
        (Task t, Evaluated False accs) #
        report_events args saliency buffer t results' rmc' sal_metrics \<and>
     list_all (training_of t) es \<and>
     results' = results1 @ [item0 accs] \<and> rmc' = rmc1 @ [item1 accs] \<and>
     list_all2 prefix results results1 \<and> list_all2 prefix rmc rmc1 \<and>
     \<not> (savecheck args \<and> disable_log args)"
proof -
  from assms have "bnd (task_begin env args t results rmc)
          (\<lambda>(train_loader, results1, results_mask_classes1).
        bnd (task_train env args t train_loader) (\<lambda>_.
        bnd (task_evaluate env t results1 results_mask_classes1)
          (\<lambda>(results2, results_mask_classes2, sal_metrics).
        bnd (task_report args t results2 results_mask_classes2 sal_metrics) (\<lambda>_.
        ret (results2, results_mask_classes2))))) s = (Inr (results', rmc'), s')"
    by (simp add: task_def)
  then obtain x1 s1 where
    b: "task_begin env args t results rmc s = (Inr x1, s1)"
    and r1: "(case x1 of (train_loader, results1, results_mask_classes1) \<Rightarrow>
        bnd (task_train env args t train_loader) (\<lambda>_.
        bnd (task_evaluate env t results1 results_mask_classes1)
          (\<lambda>(results2, results_mask_classes2, sal_metrics).
        bnd (task_report args t results2 results_mask_classes2 sal_metrics) (\<lambda>_.
        ret (results2, results_mask_classes2))))) s1 = (Inr (results', rmc'), s')"
    by (rule bnd_returns)
  obtain train_loader results1 rmc1 where x1: "x1 = (train_loader, results1, rmc1)"
    by (cases x1) auto
  from r1 have "bnd (task_train env args t train_loader) (\<lambda>_.
        bnd (task_evaluate env t results1 rmc1)
          (\<lambda>(results2, results_mask_classes2, sal_metrics).
        bnd (task_report args t results2 results_mask_classes2 sal_metrics) (\<lambda>_.
        ret (results2, results_mask_classes2)))) s1 = (Inr (results', rmc'), s')"
    by (simp add: x1)
  then obtain u s2 where
    tr: "task_train env args t train_loader s1 = (Inr u, s2)"
    and r2: "bnd (task_evaluate env t results1 rmc1)
          (\<lambda>(results2, results_mask_classes2, sal_metrics).
        bnd (task_report args t results2 results_mask_classes2 sal_metrics) (\<lambda>_.
        ret (results2, results_mask_classes2))) s2 = (Inr (results', rmc'), s')"
    by (rule bnd_returns)
  from r2 obtain x3 s3 where
    ev: "task_evaluate env t results1 rmc1 s2 = (Inr x3, s3)"
    and r3: "(case x3 of (results2, results_mask_classes2, sal_metrics) \<Rightarrow>
        bnd (task_report args t results2 results_mask_classes2 sal_metrics) (\<lambda>_.
        ret (results2, results_mask_classes2))) s3 = (Inr (results', rmc'), s')"
    by (rule bnd_returns)
  obtain results2 rmc2 sal_metrics where x3: "x3 = (results2, rmc2, sal_metrics)"
    by (cases x3) auto
  from r3 have "bnd (task_report args t results2 rmc2 sal_metrics) (\<lambda>_.
        ret (results2, rmc2)) s3 = (Inr (results', rmc'), s')"
    by (simp add: x3)
  then obtain u4 s4 where
    rp: "task_report args t results2 rmc2 sal_metrics s3 = (Inr u4, s4)"
    and r4: "ret (results2, rmc2) s4 = (Inr (results', rmc'), s')"
    by (rule bnd_returns)
  from r4 have e4: "results2 = results'" "rmc2 = rmc'" "s4 = s'"
    by (simp_all add: ret_def)
  from task_begin_run [OF b [unfolded x1]] obtain es1 where
    b1: "trace s1 = trace s @ (Task t, Get_data_loaders) # es1" "list_all (training_of t) es1"
      "list_all2 prefix results results1" "list_all2 prefix rmc rmc1"
    by blast
  from emitsD [OF emits_task_train tr] obtain es2 where
    t2: "trace s2 = trace s1 @ es2" "list_all (training_of t) es2"
    by blast
  from task_evaluate_run [OF ev [unfolded x3]] obtain accs where
    e3: "s3 = s2\<lparr>the_model := the_model s3,
                 trace := trace s2 @ [(Task t, Evaluated False accs)]\<rparr>"
      "results2 = results1 @ [item0 accs]" "rmc2 = rmc1 @ [item1 accs]"
    by blast
  have tr3: "trace s3 = trace s2 @ [(Task t, Evaluated False accs)]"
    by (subst e3(1)) simp
  note rep = task_report_run [OF rp]
  have tr4: "trace s4 = trace s3 @ report_events args (saliency_net_training (the_model s3) \<noteq> None)
          (has_buffer_size (the_model s3)) t results2 rmc2 sal_metrics"
    by (subst rep(1)) simp
  show ?thesis
    apply (rule exI [of _ "es1 @ es2"], rule exI [of _ accs],
        rule exI [of _ "saliency_net_training (the_model s3) \<noteq> None"],
        rule exI [of _ "has_buffer_size (the_model s3)"],
        rule exI [of _ sal_metrics], rule exI [of _ results1], rule exI [of _ rmc1])
    using b1 t2 tr3 tr4 e3(2,3) e4 rep(2) by simp
qed

subsection \<open>The loop over the tasks\<close>

lemma for_acc_returns:
  assumes "for_acc (x # xs) body acc s = (Inr acc', s')"
  obtains acc1 s1 where "body x acc s = (Inr acc1, s1)" "for_acc xs body acc1 s1 = (Inr acc', s')"
proof -
  from assms have "bnd (body x acc) (for_acc xs body) s = (Inr acc', s')"
    by simp
  then show thesis
    by (rule bnd_returns) (rule that)
qed

lemma task_is_block:
  assumes "task env args t acc s = (Inr acc', s')"
  shows "\<exists>es. trace s' = trace s @ es \<and> task_block args t es"
proof -
  obtain results rmc results' rmc' where "acc = (results, rmc)" "acc' = (results', rmc')"
    by (cases acc, cases acc') auto
  with task_run [of env args t results rmc s results' rmc' s'] assms
  show ?thesis
    unfolding task_block_def by (simp, blast)
qed

lemma tasks_are_blocks:
  assumes "for_acc ts (task env args) acc s = (Inr acc', s')"
  shows "\<exists>blocks. trace s' = trace s @ concat blocks \<and> list_all2 (task_block args) ts blocks"
  using assms
proof (induction ts arbitrary: acc s)
  case Nil
  then show ?case by (simp add: ret_def)
next
  case (Cons t ts)
  from Cons.prems obtain acc1 s1 where
    t: "task env args t acc s = (Inr acc1, s1)"
    and r: "for_acc ts (task env args) acc1 s1 = (Inr acc', s')"
    by (rule for_acc_returns)
  from task_is_block [OF t] obtain es where
    es: "trace s1 = trace s @ es" "task_block args t es" by blast
  from Cons.IH [OF r] obtain blocks where
    "trace s' = trace s1 @ concat blocks" "list_all2 (task_block args) ts blocks" by blast
  then show ?case
    using es by (intro exI [of _ "es # blocks"]) simp
qed


text \<open>The calls of a block are calls of its task, and there is one at least.\<close>

lemma training_report_events:
  "list_all (\<lambda>x. fst x = Task t) (report_events args saliency buffer t results rmc sal_metrics)"
  by (simp add: report_events_def list_all_iff)

lemma task_block_tags:
  assumes "task_block args t es"
  shows "map fst es = replicate (length es) (Task t)" and "es \<noteq> []"
proof -
  from assms obtain es1 accs saliency buffer results rmc sal_metrics where
    es: "es = (Task t, Get_data_loaders) # es1 @ (Task t, Evaluated False accs) #
               report_events args saliency buffer t results rmc sal_metrics"
    and tr: "list_all (\<lambda>x. fst x = Task t \<and> training_event (snd x)) es1"
    unfolding task_block_def by blast
  have "\<forall>x \<in> set es. fst x = Task t"
    using tr training_report_events [of t args saliency buffer results rmc sal_metrics]
    by (auto simp: es list_all_iff)
  then show "map fst es = replicate (length es) (Task t)"
    by (simp add: map_replicate_const [symmetric] cong: map_cong)
  show "es \<noteq> []" by (simp add: es)
qed

lemma remdups_adj_replicate_append:
  assumes "0 < n" and "ys = [] \<or> hd ys \<noteq> x"
  shows "remdups_adj (replicate n x @ ys) = x # remdups_adj ys"
  using assms
proof (induction n)
  case 0
  then show ?case by simp
next
  case (Suc n)
  show ?case
  proof (cases n)
    case 0
    then show ?thesis using Suc.prems by (cases ys) auto
  next
    case (Suc m)
    then show ?thesis using Suc.IH Suc.prems by simp
  qed
qed

lemma blocks_tags:
  assumes "list_all2 (task_block args) ts blocks" and "distinct ts"
  shows "remdups_adj (map fst (concat blocks)) = map Task ts"
  using assms
proof (induction ts blocks rule: list_all2_induct)
  case Nil
  show ?case by simp
next
  case (Cons t ts es blocks)
  note tags = task_block_tags [OF Cons.hyps(1)]
  let ?rest = "map fst (concat blocks)"
  have ih: "remdups_adj ?rest = map Task ts"
    using Cons.IH Cons.prems by simp
  have "?rest = [] \<or> hd ?rest \<noteq> Task t"
  proof (cases "?rest = []")
    case False
    then have "hd ?rest = hd (remdups_adj ?rest)"
      by (simp add: hd_remdups_adj)
    also have "\<dots> = hd (map Task ts)"
      by (simp add: ih)
    finally have h: "hd ?rest = hd (map Task ts)" .
    have "ts \<noteq> []"
      using False ih by (cases ts) auto
    then have "hd ?rest = Task (hd ts)" "hd ts \<in> set ts"
      using h by (simp_all add: hd_map)
    then show ?thesis
      using Cons.prems by auto
  qed simp
  then have "remdups_adj (replicate (length es) (Task t) @ ?rest) = Task t # remdups_adj ?rest"
    using tags(2) by (intro remdups_adj_replicate_append) simp_all
  then show ?case
    using tags(1) ih by simp
qed

lemma blocks_all_tasks:
  assumes "list_all2 (task_block args) ts blocks"
  shows "list_all (\<lambda>x. \<exists>t. fst x = Task t) (concat blocks)"
  using assms
proof (induction ts blocks rule: list_all2_induct)
  case Nil
  show ?case by simp
next
  case (Cons t ts es blocks)
  have "\<forall>x \<in> set es. fst x = Task t"
    using task_block_tags(1) [OF Cons.hyps(1)]
    by (metis in_set_replicate set_map imageI)
  then show ?case
    using Cons.IH by (auto simp: list_all_iff)
qed

text \<open>
  A selection of the calls of the blocks, when it selects no call of a start or a training
  and the same calls \<open>g t\<close> from every block of the task \<open>t\<close>.
\<close>

lemma blocks_filter:
  assumes "list_all2 (task_block args) ts blocks"
    and "\<And>t es. task_block args t es \<Longrightarrow> filter F es = g t"
  shows "filter F (concat blocks) = concat (map g ts)"
  using assms(1)
  by (induction ts blocks rule: list_all2_induct) (simp_all add: assms(2))

subsection \<open>The two lists of results\<close>

lemma end_evaluations_simps:
  "end_evaluations [] = []"
  "end_evaluations (x # xs) = end_evaluation x @ end_evaluations xs"
  "end_evaluations (xs @ ys) = end_evaluations xs @ end_evaluations ys"
  by (simp_all add: end_evaluations_def)

lemma end_evaluations_training:
  "list_all (\<lambda>x. P x \<and> training_event (snd x)) es \<Longrightarrow> end_evaluations es = []"
proof (induction es)
  case Nil
  show ?case by (simp add: end_evaluations_simps)
next
  case (Cons x es)
  obtain p e where x: "x = (p, e)" by (cases x)
  from Cons show ?case
    by (cases e) (auto simp: end_evaluations_simps x)
qed

lemma end_evaluations_report:
  "end_evaluations (report_events args saliency buffer t results rmc sal_metrics) = []"
  by (simp add: report_events_def end_evaluations_simps)

lemma end_evaluations_setup: "end_evaluations (setup_events args saliency n) = []"
proof -
  have "end_evaluations (map (Pair Setup) (replicate n Copy_get_data_loaders)) = []"
    by (induction n) (simp_all add: end_evaluations_simps)
  then show ?thesis
    by (simp add: setup_events_def end_evaluations_simps)
qed

lemma end_evaluations_finish: "end_evaluations (finish_events args results rmc) = []"
  by (simp add: finish_events_def end_evaluations_simps)

lemma list_all2_prefix_trans:
  assumes "list_all2 (\<lambda>x row. prefix (f x) row) xs rows" and "list_all2 prefix rows rows1"
  shows "list_all2 (\<lambda>x row. prefix (f x) row) xs rows1"
  using assms unfolding list_all2_conv_all_nth
  by (metis prefix_order.trans)

text \<open>
  The loop appends one entry to each list for every task, and the entry of a task starts
  with the accuracies that the evaluation at the end of that task returned.
\<close>

lemma tasks_results:
  assumes "for_acc ts (task env args) (results, rmc) s = (Inr (results', rmc'), s')"
    and "list_all2 (\<lambda>x row. prefix (item0 (snd x)) row) (end_evaluations (trace s)) results"
    and "list_all2 (\<lambda>x row. prefix (item1 (snd x)) row) (end_evaluations (trace s)) rmc"
  shows "list_all2 (\<lambda>x row. prefix (item0 (snd x)) row) (end_evaluations (trace s')) results' \<and>
         list_all2 (\<lambda>x row. prefix (item1 (snd x)) row) (end_evaluations (trace s')) rmc' \<and>
         map fst (end_evaluations (trace s')) = map fst (end_evaluations (trace s)) @ map Task ts"
  using assms
proof (induction ts arbitrary: results rmc s)
  case Nil
  then show ?case by (simp add: ret_def)
next
  case (Cons t ts)
  from Cons.prems(1) obtain acc1 s1 where
    t: "task env args t (results, rmc) s = (Inr acc1, s1)"
    and r: "for_acc ts (task env args) acc1 s1 = (Inr (results', rmc'), s')"
    by (rule for_acc_returns)
  obtain results1 rmc1 where acc1: "acc1 = (results1, rmc1)" by (cases acc1)
  from task_run [OF t [unfolded acc1]] obtain es accs saliency buffer sal_metrics res0 rmc0 where
    tr: "trace s1 = trace s @ (Task t, Get_data_loaders) # es @
        (Task t, Evaluated False accs) #
        report_events args saliency buffer t results1 rmc1 sal_metrics"
    and es: "list_all (training_of t) es"
    and res: "results1 = res0 @ [item0 accs]" "rmc1 = rmc0 @ [item1 accs]"
      "list_all2 prefix results res0" "list_all2 prefix rmc rmc0"
    by blast
  have ee: "end_evaluations (trace s1) = end_evaluations (trace s) @ [(Task t, accs)]"
    using end_evaluations_training [OF es]
    by (simp add: tr end_evaluations_simps end_evaluations_report)
  have a: "list_all2 (\<lambda>x row. prefix (item0 (snd x)) row) (end_evaluations (trace s1)) results1"
    using list_all2_prefix_trans [OF Cons.prems(2) res(3)]
    by (simp add: ee res(1) list_all2_appendI)
  have b: "list_all2 (\<lambda>x row. prefix (item1 (snd x)) row) (end_evaluations (trace s1)) rmc1"
    using list_all2_prefix_trans [OF Cons.prems(3) res(4)]
    by (simp add: ee res(2) list_all2_appendI)
  from Cons.IH [OF r [unfolded acc1] a b] show ?case
    by (simp add: ee)
qed

subsection \<open>The function\<close>

text \<open>
  A run of \<open>train\<close> that returns: the setup, then the blocks of the tasks in the order of
  \<^verbatim>\<open>range(dataset.N_TASKS)\<close>, then the calls after the loop.
\<close>

lemma train_returns:
  assumes "train env args model dataset = (Inr (results, rmc), w')"
  obtains s1 s2 where
    "nowand args \<or> wandb_installed env"
    "trace s1 = setup_events args (saliency_net_training model \<noteq> None) (nat (N_TASKS dataset))"
    "for_acc [0..<nat (N_TASKS dataset)] (task env args) ([], []) s1 = (Inr (results, rmc), s2)"
    "trace w' = trace s2 @ finish_events args results rmc"
proof -
  let ?s0 = "\<lparr>the_model = model, the_dataset = dataset, trace = []\<rparr>"
  from assms have "bnd (train_setup env args) (\<lambda>_.
     bnd read_dataset (\<lambda>dataset.
     bnd (for_acc [0..<nat (N_TASKS dataset)] (task env args) ([], [])) (\<lambda>acc.
     case acc of (results, results_mask_classes) \<Rightarrow>
       bnd (train_finish args results results_mask_classes) (\<lambda>_.
       ret (results, results_mask_classes))))) ?s0 = (Inr (results, rmc), w')"
    by (simp add: train_def train_body_def)
  then obtain u s1 where
    su: "train_setup env args ?s0 = (Inr u, s1)"
    and r1: "bnd read_dataset (\<lambda>dataset.
     bnd (for_acc [0..<nat (N_TASKS dataset)] (task env args) ([], [])) (\<lambda>acc.
     case acc of (results, results_mask_classes) \<Rightarrow>
       bnd (train_finish args results results_mask_classes) (\<lambda>_.
       ret (results, results_mask_classes)))) s1 = (Inr (results, rmc), w')"
    by (rule bnd_returns)
  have ok: "nowand args \<or> wandb_installed env"
    using su train_setup_fails [of args env ?s0] by auto
  from train_setup_run [OF ok, of ?s0] su have
    tr1: "trace s1 = setup_events args (saliency_net_training model \<noteq> None)
                       (nat (N_TASKS dataset))"
    and ds1: "the_dataset s1 = dataset"
    by auto
  from r1 have "bnd (for_acc [0..<nat (N_TASKS dataset)] (task env args) ([], [])) (\<lambda>acc.
     case acc of (results, results_mask_classes) \<Rightarrow>
       bnd (train_finish args results results_mask_classes) (\<lambda>_.
       ret (results, results_mask_classes))) s1 = (Inr (results, rmc), w')"
    by (simp add: bnd_def read_dataset_def ds1)
  then obtain acc s2 where
    lo: "for_acc [0..<nat (N_TASKS dataset)] (task env args) ([], []) s1 = (Inr acc, s2)"
    and r2: "(case acc of (results, results_mask_classes) \<Rightarrow>
       bnd (train_finish args results results_mask_classes) (\<lambda>_.
       ret (results, results_mask_classes))) s2 = (Inr (results, rmc), w')"
    by (rule bnd_returns)
  obtain res2 rmc2 where acc: "acc = (res2, rmc2)" by (cases acc)
  from r2 have "acc = (results, rmc)" "w' = s2\<lparr>trace := trace s2 @ finish_events args results rmc\<rparr>"
    by (auto simp: acc bnd_def train_finish_run ret_def)
  then show thesis
    using ok tr1 lo by (intro that [of s1 s2]) simp_all
qed

subsection \<open>The phases of the calls\<close>

lemma map_fst_Pair: "map fst (map (Pair p) es) = replicate (length (map (Pair p) es)) p"
  by (simp add: comp_def map_replicate_const)

lemma setup_events_tags:
  "map fst (setup_events args saliency n) = replicate (length (setup_events args saliency n)) Setup"
  "setup_events args saliency n \<noteq> []"
  unfolding setup_events_def by (rule map_fst_Pair) simp

lemma finish_events_tags:
  "map fst (finish_events args results rmc) =
     replicate (length (finish_events args results rmc)) Finish"
  "finish_events args results rmc = [] \<longleftrightarrow> disable_log args \<and> nowand args"
  unfolding finish_events_def by (rule map_fst_Pair) auto

lemma remdups_adj_append_disjoint:
  assumes "set xs \<inter> set ys = {}"
  shows "remdups_adj (xs @ ys) = remdups_adj xs @ remdups_adj ys"
proof (rule remdups_adj_append')
  show "xs = [] \<or> ys = [] \<or> last xs \<noteq> hd ys"
    by (metis assms disjoint_iff hd_in_set last_in_set)
qed

lemma replicate_tags:
  assumes "xs = replicate (length xs) p"
  shows "set xs \<subseteq> {p}" and "remdups_adj xs = (if xs = [] then [] else [p])"
proof -
  show "set xs \<subseteq> {p}"
    by (subst assms) auto
  show "remdups_adj xs = (if xs = [] then [] else [p])"
    by (subst assms) (simp add: remdups_adj_replicate)
qed

lemma blocks_list_all:
  assumes "list_all2 (task_block args) ts blocks"
    and "\<And>t es. task_block args t es \<Longrightarrow> list_all P es"
  shows "list_all P (concat blocks)"
  using assms(1)
  by (induction ts blocks rule: list_all2_induct) (simp_all add: assms(2))

lemma phases_of_run:
  assumes "list_all2 (task_block args) ts blocks" and "distinct ts"
  shows "remdups_adj (map fst (setup_events args saliency n @ concat blocks @
                                 finish_events args results rmc)) =
         Setup # map Task ts @ (if disable_log args \<and> nowand args then [] else [Finish])"
proof -
  let ?S = "map fst (setup_events args saliency n)"
  let ?B = "map fst (concat blocks)"
  let ?F = "map fst (finish_events args results rmc)"
  have S: "set ?S \<subseteq> {Setup}" "remdups_adj ?S = [Setup]"
    using replicate_tags [of ?S Setup] setup_events_tags [of args saliency n] by simp_all
  have B: "set ?B \<subseteq> range Task"
    using blocks_all_tasks [OF assms(1)] by (fastforce simp: list_all_iff)
  have F: "set ?F \<subseteq> {Finish}"
    "remdups_adj ?F = (if disable_log args \<and> nowand args then [] else [Finish])"
    using replicate_tags [of ?F Finish] finish_events_tags [of args results rmc] by simp_all
  have d: "set ?S \<inter> (set ?B \<union> set ?F) = {}" "set ?B \<inter> set ?F = {}"
    using S(1) B F(1) by blast+
  have "remdups_adj (?S @ (?B @ ?F)) = remdups_adj ?S @ remdups_adj (?B @ ?F)"
    by (rule remdups_adj_append_disjoint) (simp only: set_append d)
  also have "remdups_adj (?B @ ?F) = remdups_adj ?B @ remdups_adj ?F"
    by (rule remdups_adj_append_disjoint) (rule d)
  finally show ?thesis
    using S(2) F(2) blocks_tags [OF assms] by simp
qed

subsection \<open>Selections of the calls\<close>

lemma filter_training:
  assumes "list_all (\<lambda>x. fst x = Task t \<and> training_event (snd x)) es"
    and "\<And>e. training_event e \<Longrightarrow> \<not> F e"
  shows "filter (\<lambda>x. F (snd x)) es = []"
  using assms by (auto simp: list_all_iff filter_empty_conv)

lemma training_event_other:
  assumes "training_event e"
  shows "\<not> metric_event e" "\<not> local_tracker_event e" "\<not> remote_tracker_event e"
    "\<not> checkpoint_event e"
  using assms by (cases e; simp)+

lemma task_block_selection:
  assumes "task_block args t es" and "\<And>e. training_event e \<Longrightarrow> \<not> F e"
    and "\<And>accs. \<not> F (Evaluated False accs)"
  shows "\<exists>saliency buffer results rmc sal_metrics.
           filter (\<lambda>x. F (snd x)) es =
           filter (\<lambda>x. F (snd x)) (report_events args saliency buffer t results rmc sal_metrics)"
proof -
  from assms(1) obtain es1 accs saliency buffer results rmc sal_metrics where
    es: "es = (Task t, Get_data_loaders) # es1 @ (Task t, Evaluated False accs) #
               report_events args saliency buffer t results rmc sal_metrics"
    and tr: "list_all (\<lambda>x. fst x = Task t \<and> training_event (snd x)) es1"
    unfolding task_block_def by blast
  have "\<not> F Get_data_loaders"
    by (rule assms(2)) simp
  then have "filter (\<lambda>x. F (snd x)) es =
      filter (\<lambda>x. F (snd x)) (report_events args saliency buffer t results rmc sal_metrics)"
    using filter_training [OF tr assms(2)] assms(3) by (simp add: es)
  then show ?thesis by blast
qed

lemma task_block_metric:
  assumes "task_block args t es"
  shows "list_all (\<lambda>x. fst x \<noteq> Finish \<and> \<not> metric_event (snd x)) es"
proof -
  from assms obtain es1 accs saliency buffer results rmc sal_metrics where
    es: "es = (Task t, Get_data_loaders) # es1 @ (Task t, Evaluated False accs) #
               report_events args saliency buffer t results rmc sal_metrics"
    and tr: "list_all (\<lambda>x. fst x = Task t \<and> training_event (snd x)) es1"
    unfolding task_block_def by blast
  have "list_all (\<lambda>x. fst x \<noteq> Finish \<and> \<not> metric_event (snd x)) es1"
    using tr by (auto simp: list_all_iff training_event_other)
  moreover have "list_all (\<lambda>x. fst x \<noteq> Finish \<and> \<not> metric_event (snd x))
      (report_events args saliency buffer t results rmc sal_metrics)"
    by (auto simp: report_events_def list_all_iff)
  ultimately show ?thesis
    by (simp add: es)
qed

lemma setup_events_metric:
  "list_all (\<lambda>x. fst x \<noteq> Finish \<and> \<not> metric_event (snd x)) (setup_events args saliency n)"
  by (auto simp: setup_events_def list_all_iff)

lemma task_block_local:
  assumes "task_block args t es"
  shows "filter (\<lambda>x. local_tracker_event (snd x)) es =
           (if disable_log args then [] else [(Task t, Logger_log), (Task t, Logger_log_fullacc)])"
proof -
  from task_block_selection [OF assms, of local_tracker_event]
  obtain saliency buffer results rmc sal_metrics where
    "filter (\<lambda>x. local_tracker_event (snd x)) es =
     filter (\<lambda>x. local_tracker_event (snd x))
       (report_events args saliency buffer t results rmc sal_metrics)"
    by (auto simp: training_event_other)
  then show ?thesis
    by (simp add: report_events_def)
qed

lemma task_block_remote:
  assumes "task_block args t es"
  shows "filter (\<lambda>x. remote_tracker_event (snd x)) es =
           (if nowand args then [] else [(Task t, Wandb_log)])"
proof -
  from task_block_selection [OF assms, of remote_tracker_event]
  obtain saliency buffer results rmc sal_metrics where
    "filter (\<lambda>x. remote_tracker_event (snd x)) es =
     filter (\<lambda>x. remote_tracker_event (snd x))
       (report_events args saliency buffer t results rmc sal_metrics)"
    by (auto simp: training_event_other)
  then show ?thesis
    by (simp add: report_events_def)
qed

lemma setup_events_trackers:
  "filter (\<lambda>x. local_tracker_event (snd x)) (setup_events args saliency n) =
     (if disable_log args then [] else [(Setup, Logger_create)])"
  "filter (\<lambda>x. remote_tracker_event (snd x)) (setup_events args saliency n) =
     (if nowand args then [] else [(Setup, Wandb_init)])"
  by (simp_all add: setup_events_def filter_map comp_def)

lemma finish_events_trackers:
  "filter (\<lambda>x. local_tracker_event (snd x)) (finish_events args results rmc) =
     (if disable_log args then [] else [(Finish, Logger_write)])"
  "filter (\<lambda>x. remote_tracker_event (snd x)) (finish_events args results rmc) =
     (if nowand args then []
      else (if disable_log args then [] else [(Finish, Wandb_log)]) @ [(Finish, Wandb_finish)])"
  by (simp_all add: finish_events_def)

lemma finish_events_metric:
  "\<exists>rest. finish_events args results rmc =
     (if \<not> disable_log args \<and> \<not> ignore_other_metrics args
      then [(Finish, Logger_add_bwt results rmc), (Finish, Logger_add_forgetting results rmc)]
      else []) @ rest \<and>
     list_all (\<lambda>x. fst x = Finish \<and> \<not> metric_event (snd x)) rest"
  by (rule exI [of _ "map (Pair Finish)
        ((if disable_log args then []
          else Logger_write #
               (if nowand args then [] else [Logger_dump, Wandb_get_url, Wandb_log]))
         @ (if nowand args then [] else [Wandb_finish]))"])
     (simp add: finish_events_def)

subsection \<open>The start of a task\<close>

lemma emits_weaken: "emits P m \<Longrightarrow> (\<And>x. P x \<Longrightarrow> Q x) \<Longrightarrow> emits Q m"
  unfolding emits_def list_all_iff by blast

lemma emits_task_evaluate: "emits P (task_evaluate env t results rmc)"
  if "\<And>accs. P (Task t, Evaluated False accs)"
  unfolding task_evaluate_def call_evaluate_def
  by (intro emits_intros) (simp add: that)

lemma emits_task_report: "emits (\<lambda>x. fst x = Task t) (task_report args t results rmc sal_metrics)"
  unfolding task_report_def
  by (intro emits_intros) simp_all

text \<open>
  The body of the loop, when it returns, is the start of the task followed by calls of the
  task.
\<close>

lemma task_starts:
  assumes "task env args t (results, rmc) s = (Inr out, s')"
  shows "\<exists>train_loader results1 rmc1 s1 es.
           task_begin env args t results rmc s = (Inr (train_loader, results1, rmc1), s1) \<and>
           trace s' = trace s1 @ es \<and> list_all (\<lambda>x. fst x = Task t) es"
proof -
  from assms have "bnd (task_begin env args t results rmc)
          (\<lambda>(train_loader, results1, results_mask_classes1).
        bnd (task_train env args t train_loader) (\<lambda>_.
        bnd (task_evaluate env t results1 results_mask_classes1)
          (\<lambda>(results2, results_mask_classes2, sal_metrics).
        bnd (task_report args t results2 results_mask_classes2 sal_metrics) (\<lambda>_.
        ret (results2, results_mask_classes2))))) s = (Inr out, s')"
    by (simp add: task_def)
  then obtain x1 s1 where
    b: "task_begin env args t results rmc s = (Inr x1, s1)"
    and r1: "(case x1 of (train_loader, results1, results_mask_classes1) \<Rightarrow>
        bnd (task_train env args t train_loader) (\<lambda>_.
        bnd (task_evaluate env t results1 results_mask_classes1)
          (\<lambda>(results2, results_mask_classes2, sal_metrics).
        bnd (task_report args t results2 results_mask_classes2 sal_metrics) (\<lambda>_.
        ret (results2, results_mask_classes2))))) s1 = (Inr out, s')"
    by (rule bnd_returns)
  obtain train_loader results1 rmc1 where x1: "x1 = (train_loader, results1, rmc1)"
    by (cases x1) auto
  let ?rest = "bnd (task_train env args t train_loader) (\<lambda>_.
        bnd (task_evaluate env t results1 rmc1)
          (\<lambda>(results2, results_mask_classes2, sal_metrics).
        bnd (task_report args t results2 results_mask_classes2 sal_metrics) (\<lambda>_.
        ret (results2, results_mask_classes2))))"
  have e: "emits (\<lambda>x. fst x = Task t) ?rest"
    by (intro emits_intros emits_task_evaluate emits_task_report
        emits_weaken [OF emits_task_train]) simp_all
  from r1 have "?rest s1 = (Inr out, s')"
    by (simp add: x1)
  from emitsD [OF e this] obtain es where
    "trace s' = trace s1 @ es" "list_all (\<lambda>x. fst x = Task t) es"
    by blast
  then show ?thesis
    using b x1 by blast
qed

section \<open>Properties of train\<close>

subsection \<open>The small run\<close>

lemmas run_simps =
  train_def train_body_def train_setup_def train_finish_def task_def task_begin_def
  task_train_def task_evaluate_def task_report_def train_epoch_def observe_batch_def
  check_loss_def call_end_task_def call_begin_task_def call_get_data_loaders_def
  call_evaluate_def evaluate_before_task_def extend_item_def net_train_def
  ret_def raise_def bnd_def emit_def read_model_def write_model_def read_dataset_def
  write_dataset_def lift_def only_when_def demo_args_def

lemma demo_train_result:
  "fst (train demo_env demo_args demo_model demo_dataset) =
     Inr ([[100, 0], [100, 0]], [[100, 100], [100, 100]])"
  by (simp add: run_simps demo_simps)

lemma demo_train_run:
  "train demo_env demo_args demo_model demo_dataset =
     (Inr ([[100, 0], [100, 0]], [[100, 100], [100, 100]]),
      snd (train demo_env demo_args demo_model demo_dataset))"
  using demo_train_result by (cases "train demo_env demo_args demo_model demo_dataset") simp

lemma demo_fields:
  "N_TASKS demo_dataset = 2"
  "nowand demo_args = False"
  "disable_log demo_args = False"
  "ignore_other_metrics demo_args = False"
  "savecheck demo_args = True"
  "wandb_installed demo_env = True"
  by (simp_all add: demo_dataset_def demo_args_def demo_env_def)

subsection \<open>The order of the tasks\<close>

text \<open>
  C3. In a run of \<open>train\<close> that returns, the calls are those of the setup, then those of
  the task 0, then those of the task 1, and so on up to the task \<open>N_TASKS - 1\<close>, then the
  calls after the loop: the phases of the trace, with adjacent repetitions removed, are
  \<open>Setup\<close>, \<open>Task 0\<close>, ..., \<open>Task (N_TASKS - 1)\<close> and \<open>Finish\<close> (when a call is made
  after the loop). So every call of a task, its training steps and its evaluations included,
  is made before the first call of the next task, and exactly \<open>N_TASKS\<close> tasks are
  processed. The lists \<open>results\<close> and \<open>results_mask_classes\<close> have \<open>N_TASKS\<close> entries
  each; there is one evaluation at the end of a task for every task, in the order of the
  tasks, and the entry \<open>t\<close> of each list starts with the accuracies that the evaluation at
  the end of the task \<open>t\<close> returned.
\<close>

theorem train_tasks_in_order:
  assumes "train env args model dataset = (Inr (results, results_mask_classes), w')"
  shows "remdups_adj (map fst (trace w')) =
           Setup # map Task [0..<nat (N_TASKS dataset)] @
           (if disable_log args \<and> nowand args then [] else [Finish]) \<and>
         length results = nat (N_TASKS dataset) \<and>
         length results_mask_classes = nat (N_TASKS dataset) \<and>
         map fst (end_evaluations (trace w')) = map Task [0..<nat (N_TASKS dataset)] \<and>
         list_all2 (\<lambda>x row. prefix (item0 (snd x)) row) (end_evaluations (trace w')) results \<and>
         list_all2 (\<lambda>x row. prefix (item1 (snd x)) row) (end_evaluations (trace w'))
           results_mask_classes"
proof -
  let ?n = "nat (N_TASKS dataset)"
  from assms obtain s1 s2 where
    s1: "trace s1 = setup_events args (saliency_net_training model \<noteq> None) ?n"
    and loop: "for_acc [0..<?n] (task env args) ([], []) s1 =
                 (Inr (results, results_mask_classes), s2)"
    and w': "trace w' = trace s2 @ finish_events args results results_mask_classes"
    by (rule train_returns)
  from tasks_are_blocks [OF loop] obtain blocks where
    s2: "trace s2 = trace s1 @ concat blocks"
    and blocks: "list_all2 (task_block args) [0..<?n] blocks"
    by blast
  have phases: "remdups_adj (map fst (trace w')) =
      Setup # map Task [0..<?n] @ (if disable_log args \<and> nowand args then [] else [Finish])"
    using phases_of_run [OF blocks, of "saliency_net_training model \<noteq> None" ?n results
        results_mask_classes]
    by (simp add: w' s2 s1)
  have e1: "end_evaluations (trace s1) = []"
    by (simp add: s1 end_evaluations_setup)
  from tasks_results [OF loop] e1 have
    r: "list_all2 (\<lambda>x row. prefix (item0 (snd x)) row) (end_evaluations (trace s2)) results"
      "list_all2 (\<lambda>x row. prefix (item1 (snd x)) row) (end_evaluations (trace s2))
         results_mask_classes"
      "map fst (end_evaluations (trace s2)) = map Task [0..<?n]"
    by simp_all
  have e': "end_evaluations (trace w') = end_evaluations (trace s2)"
    by (simp add: w' end_evaluations_simps end_evaluations_finish)
  have "length results = length (map fst (end_evaluations (trace s2)))"
    using list_all2_lengthD [OF r(1)] by simp
  moreover have "length results_mask_classes = length (map fst (end_evaluations (trace s2)))"
    using list_all2_lengthD [OF r(2)] by simp
  ultimately have "length results = ?n" "length results_mask_classes = ?n"
    by (simp_all only: r(3) length_map length_upt)
  then show ?thesis
    using phases r by (simp add: e')
qed

text \<open>The theorem on the small run, which has two tasks.\<close>

theorem train_tasks_in_order_witness:
  "fst (train demo_env demo_args demo_model demo_dataset) =
     Inr ([[100, 0], [100, 0]], [[100, 100], [100, 100]]) \<and>
   remdups_adj (map fst (trace (snd (train demo_env demo_args demo_model demo_dataset)))) =
     [Setup, Task 0, Task 1, Finish] \<and>
   map fst (end_evaluations (trace (snd (train demo_env demo_args demo_model demo_dataset)))) =
     [Task 0, Task 1]"
  using train_tasks_in_order [OF demo_train_run]
  by (simp add: demo_train_result demo_fields upt_rec)

subsection \<open>The forgetting and the backward transfer\<close>

text \<open>
  C4. In a run of \<open>train\<close> that returns, the calls \<open>Logger_add_bwt\<close> and
  \<open>Logger_add_forgetting\<close> are made once each when \<open>disable_log\<close> and
  \<open>ignore_other_metrics\<close> are both false, and not at all otherwise. They are made on the
  lists \<open>results\<close> and \<open>results_mask_classes\<close> as they are when \<open>train\<close> returns, and
  after the loop: every call before them is a call of the setup or of a task, and every call
  after them is a call of the lines after the loop.
\<close>

theorem train_records_metrics_once:
  assumes "train env args model dataset = (Inr (results, results_mask_classes), w')"
  shows "filter (\<lambda>x. metric_event (snd x)) (trace w') =
           (if \<not> disable_log args \<and> \<not> ignore_other_metrics args
            then [(Finish, Logger_add_bwt results results_mask_classes),
                  (Finish, Logger_add_forgetting results results_mask_classes)]
            else []) \<and>
         (\<exists>es rest.
            trace w' = es @
              (if \<not> disable_log args \<and> \<not> ignore_other_metrics args
               then [(Finish, Logger_add_bwt results results_mask_classes),
                     (Finish, Logger_add_forgetting results results_mask_classes)]
               else []) @ rest \<and>
            list_all (\<lambda>x. fst x \<noteq> Finish \<and> \<not> metric_event (snd x)) es \<and>
            list_all (\<lambda>x. fst x = Finish \<and> \<not> metric_event (snd x)) rest)"
proof -
  let ?n = "nat (N_TASKS dataset)"
  let ?M = "if \<not> disable_log args \<and> \<not> ignore_other_metrics args
            then [(Finish, Logger_add_bwt results results_mask_classes),
                  (Finish, Logger_add_forgetting results results_mask_classes)]
            else []"
  from assms obtain s1 s2 where
    s1: "trace s1 = setup_events args (saliency_net_training model \<noteq> None) ?n"
    and loop: "for_acc [0..<?n] (task env args) ([], []) s1 =
                 (Inr (results, results_mask_classes), s2)"
    and w': "trace w' = trace s2 @ finish_events args results results_mask_classes"
    by (rule train_returns)
  from tasks_are_blocks [OF loop] obtain blocks where
    s2: "trace s2 = trace s1 @ concat blocks"
    and blocks: "list_all2 (task_block args) [0..<?n] blocks"
    by blast
  from finish_events_metric [of args results results_mask_classes] obtain rest where
    fin: "finish_events args results results_mask_classes = ?M @ rest"
    and rest: "list_all (\<lambda>x. fst x = Finish \<and> \<not> metric_event (snd x)) rest"
    by blast
  have before: "list_all (\<lambda>x. fst x \<noteq> Finish \<and> \<not> metric_event (snd x)) (trace s2)"
    using setup_events_metric blocks_list_all [OF blocks task_block_metric]
    by (simp add: s2 s1)
  have split: "trace w' = trace s2 @ ?M @ rest"
    by (simp only: w' fin)
  have "filter (\<lambda>x. metric_event (snd x)) (trace s2) = []"
    using before by (auto simp: list_all_iff filter_empty_conv)
  moreover have "filter (\<lambda>x. metric_event (snd x)) rest = []"
    using rest by (auto simp: list_all_iff filter_empty_conv)
  ultimately have "filter (\<lambda>x. metric_event (snd x)) (trace w') = ?M"
    by (simp add: split)
  then show ?thesis
    using split before rest by blast
qed

text \<open>The theorem on the small run, where the two flags are false.\<close>

theorem train_records_metrics_once_witness:
  "fst (train demo_env demo_args demo_model demo_dataset) =
     Inr ([[100, 0], [100, 0]], [[100, 100], [100, 100]]) \<and>
   filter (\<lambda>x. metric_event (snd x))
     (trace (snd (train demo_env demo_args demo_model demo_dataset))) =
     [(Finish, Logger_add_bwt [[100, 0], [100, 0]] [[100, 100], [100, 100]]),
      (Finish, Logger_add_forgetting [[100, 0], [100, 0]] [[100, 100], [100, 100]])]"
  using train_records_metrics_once [OF demo_train_run]
  by (simp add: demo_train_result demo_fields)

subsection \<open>The trackers\<close>

text \<open>
  C6. In a run of \<open>train\<close> that returns, the calls to the local tracker are none when
  \<open>disable_log\<close> is true, and otherwise the creation of the \<open>Logger\<close> in the setup, then
  \<open>Logger_log\<close> and \<open>Logger_log_fullacc\<close> in every task, then \<open>Logger_write\<close> once
  after the loop. The calls to the remote tracker are none when \<open>nowand\<close> is true, and
  otherwise \<open>Wandb_init\<close> once in the setup, then \<open>Wandb_log\<close> in every task, then
  after the loop the \<open>Wandb_log\<close> of the dump of the logger, when there is a logger, and
  \<open>Wandb_finish\<close> once. When \<open>nowand\<close> is false and \<^verbatim>\<open>wandb\<close> is not installed,
  \<open>train\<close> fails an assertion after its first print: no other call is made, and the model
  and the dataset are as they were.
\<close>

theorem train_logs_to_trackers:
  "(train env args model dataset = (Inr (results, results_mask_classes), w') \<longrightarrow>
      filter (\<lambda>x. local_tracker_event (snd x)) (trace w') =
        (if disable_log args then []
         else (Setup, Logger_create) #
              concat (map (\<lambda>t. [(Task t, Logger_log), (Task t, Logger_log_fullacc)])
                        [0..<nat (N_TASKS dataset)]) @
              [(Finish, Logger_write)]) \<and>
      filter (\<lambda>x. remote_tracker_event (snd x)) (trace w') =
        (if nowand args then []
         else (Setup, Wandb_init) #
              map (\<lambda>t. (Task t, Wandb_log)) [0..<nat (N_TASKS dataset)] @
              (if disable_log args then [] else [(Finish, Wandb_log)]) @
              [(Finish, Wandb_finish)])) \<and>
   (\<not> nowand args \<and> \<not> wandb_installed env \<longrightarrow>
      train env args model dataset =
        (Inl AssertionError,
         \<lparr>the_model = model, the_dataset = dataset, trace = [(Setup, Print_args)]\<rparr>))"
proof (intro conjI impI)
  let ?n = "nat (N_TASKS dataset)"
  assume run: "train env args model dataset = (Inr (results, results_mask_classes), w')"
  from run obtain s1 s2 where
    s1: "trace s1 = setup_events args (saliency_net_training model \<noteq> None) ?n"
    and loop: "for_acc [0..<?n] (task env args) ([], []) s1 =
                 (Inr (results, results_mask_classes), s2)"
    and w': "trace w' = trace s2 @ finish_events args results results_mask_classes"
    by (rule train_returns)
  from tasks_are_blocks [OF loop] obtain blocks where
    s2: "trace s2 = trace s1 @ concat blocks"
    and blocks: "list_all2 (task_block args) [0..<?n] blocks"
    by blast
  have l: "filter (\<lambda>x. local_tracker_event (snd x)) (concat blocks) =
        concat (map (\<lambda>t. if disable_log args then []
                          else [(Task t, Logger_log), (Task t, Logger_log_fullacc)]) [0..<?n])"
    by (rule blocks_filter [OF blocks]) (rule task_block_local)
  have r: "filter (\<lambda>x. remote_tracker_event (snd x)) (concat blocks) =
        concat (map (\<lambda>t. if nowand args then [] else [(Task t, Wandb_log)]) [0..<?n])"
    by (rule blocks_filter [OF blocks]) (rule task_block_remote)
  show "filter (\<lambda>x. local_tracker_event (snd x)) (trace w') =
        (if disable_log args then []
         else (Setup, Logger_create) #
              concat (map (\<lambda>t. [(Task t, Logger_log), (Task t, Logger_log_fullacc)]) [0..<?n]) @
              [(Finish, Logger_write)])"
    by (simp add: w' s2 s1 l setup_events_trackers finish_events_trackers)
  show "filter (\<lambda>x. remote_tracker_event (snd x)) (trace w') =
        (if nowand args then []
         else (Setup, Wandb_init) #
              map (\<lambda>t. (Task t, Wandb_log)) [0..<?n] @
              (if disable_log args then [] else [(Finish, Wandb_log)]) @
              [(Finish, Wandb_finish)])"
    by (simp add: w' s2 s1 r setup_events_trackers finish_events_trackers
        concat_map_singleton)
next
  assume "\<not> nowand args \<and> \<not> wandb_installed env"
  then show "train env args model dataset =
        (Inl AssertionError,
         \<lparr>the_model = model, the_dataset = dataset, trace = [(Setup, Print_args)]\<rparr>)"
    by (simp add: train_def train_body_def bnd_def train_setup_fails)
qed

text \<open>
  The theorem on the small run, where the two trackers are on, and on the same run without
  \<^verbatim>\<open>wandb\<close>.
\<close>

theorem train_logs_to_trackers_witness:
  "fst (train demo_env demo_args demo_model demo_dataset) =
     Inr ([[100, 0], [100, 0]], [[100, 100], [100, 100]]) \<and>
   filter (\<lambda>x. local_tracker_event (snd x))
     (trace (snd (train demo_env demo_args demo_model demo_dataset))) =
     [(Setup, Logger_create), (Task 0, Logger_log), (Task 0, Logger_log_fullacc),
      (Task 1, Logger_log), (Task 1, Logger_log_fullacc), (Finish, Logger_write)] \<and>
   filter (\<lambda>x. remote_tracker_event (snd x))
     (trace (snd (train demo_env demo_args demo_model demo_dataset))) =
     [(Setup, Wandb_init), (Task 0, Wandb_log), (Task 1, Wandb_log), (Finish, Wandb_log),
      (Finish, Wandb_finish)] \<and>
   train (demo_env\<lparr>wandb_installed := False\<rparr>) demo_args demo_model demo_dataset =
     (Inl AssertionError,
      \<lparr>the_model = demo_model, the_dataset = demo_dataset, trace = [(Setup, Print_args)]\<rparr>)"
  using train_logs_to_trackers
          [of demo_env demo_args demo_model demo_dataset
              "[[100, 0], [100, 0]]" "[[100, 100], [100, 100]]"
              "snd (train demo_env demo_args demo_model demo_dataset)"]
        train_logs_to_trackers
          [of "demo_env\<lparr>wandb_installed := False\<rparr>" demo_args demo_model demo_dataset]
        demo_train_run
  by (simp add: demo_train_result demo_fields upt_rec)

subsection \<open>The checkpoint\<close>

text \<open>
  The report of a task that returns writes no file when \<open>savecheck\<close> is false. When it is
  true it saves the network, the saliency network when the model has one, the buffer when
  \<^verbatim>\<open>'buffer_size'\<close> is in \<^verbatim>\<open>model.args\<close>, the arguments and the results, in this order;
  and then \<open>disable_log\<close> is false.
\<close>

lemma task_report_checkpoint:
  assumes "task_report args t results rmc sal_metrics s = (Inr u, s')"
  shows "\<exists>es. trace s' = trace s @ es \<and>
     filter (\<lambda>x. checkpoint_event (snd x)) es =
       (if savecheck args
        then (Task t, Save_net) #
             (if saliency_net_training (the_model s) \<noteq> None
              then [(Task t, Save_saliency_net)] else []) @
             (if has_buffer_size (the_model s) then [(Task t, Pickle_buffer)] else []) @
             [(Task t, Pickle_args), (Task t, Pickle_results results rmc sal_metrics)]
        else [])"
    and "\<not> (savecheck args \<and> disable_log args)"
proof -
  note run = task_report_run [OF assms]
  have "trace s' = trace s @ report_events args (saliency_net_training (the_model s) \<noteq> None)
            (has_buffer_size (the_model s)) t results rmc sal_metrics"
    by (subst run(1)) simp
  then show "\<exists>es. trace s' = trace s @ es \<and>
     filter (\<lambda>x. checkpoint_event (snd x)) es =
       (if savecheck args
        then (Task t, Save_net) #
             (if saliency_net_training (the_model s) \<noteq> None
              then [(Task t, Save_saliency_net)] else []) @
             (if has_buffer_size (the_model s) then [(Task t, Pickle_buffer)] else []) @
             [(Task t, Pickle_args), (Task t, Pickle_results results rmc sal_metrics)]
        else [])"
    by (intro exI conjI, assumption) (simp add: report_events_def)
  show "\<not> (savecheck args \<and> disable_log args)"
    by (rule run(2))
qed

text \<open>
  With \<open>savecheck\<close> and \<open>disable_log\<close> both true the report raises at line 249, where the
  local \<^verbatim>\<open>logger\<close> is unbound: the file of the results is open and nothing is pickled into
  it.
\<close>

lemma task_report_unbound_logger:
  assumes "savecheck args" "disable_log args" "nowand args \<or> 3 \<le> length sal_metrics"
  shows "task_report args t results rmc sal_metrics s =
     (Inl UnboundLocalError,
      s\<lparr>trace := trace s @ map (Pair (Task t))
         ([Print_mean_accuracy] @ (if nowand args then [] else [Wandb_log]) @
          [Create_dir, Save_net] @
          (if saliency_net_training (the_model s) \<noteq> None then [Save_saliency_net] else []) @
          (if has_buffer_size (the_model s) then [Pickle_buffer] else []) @
          [Pickle_args, Open_results_file])\<rparr>)"
  using assms
  by (auto simp: task_report_def only_when_def bnd_def emit_def ret_def raise_def read_model_def)

text \<open>So a run of \<open>train\<close> with both flags true and a task to process does not return.\<close>

lemma train_checkpoint_needs_logger:
  assumes "savecheck args" "disable_log args" "0 < N_TASKS dataset"
  shows "train env args model dataset \<noteq> (Inr out, w')"
proof
  assume run: "train env args model dataset = (Inr out, w')"
  obtain results rmc where out: "out = (results, rmc)" by (cases out)
  let ?n = "nat (N_TASKS dataset)"
  from run [unfolded out] obtain s1 s2 where
    loop: "for_acc [0..<?n] (task env args) ([], []) s1 = (Inr (results, rmc), s2)"
    by (rule train_returns)
  have "[0..<?n] = 0 # [1..<?n]"
    using assms(3) by (simp add: upt_rec)
  with loop have "for_acc (0 # [1..<?n]) (task env args) ([], []) s1 = (Inr (results, rmc), s2)"
    by simp
  then obtain acc1 s1' where "task env args 0 ([], []) s1 = (Inr acc1, s1')"
    by (rule for_acc_returns)
  then have "\<not> (savecheck args \<and> disable_log args)"
    using task_run [of env args 0 "[]" "[]" s1 "fst acc1" "snd acc1" s1'] by auto
  then show False
    using assms by simp
qed

text \<open>
  C5. On the small run with \<open>savecheck\<close> true and \<open>disable_log\<close> true, \<open>train\<close> raises
  \<open>UnboundLocalError\<close> in the report of the task 0, after it has saved the network, the
  buffer and the arguments and opened the file of the results. The results are never
  pickled, and the task 1 is not processed: with \<open>savecheck\<close> true the results are
  pickled after each task only when \<open>disable_log\<close> is false.
\<close>

theorem train_checkpoint_without_logger:
  "train demo_env (demo_args\<lparr>disable_log := True\<rparr>) demo_model demo_dataset =
     (Inl UnboundLocalError,
      \<lparr>the_model = demo_model\<lparr>weights := 1\<rparr>,
       the_dataset = demo_dataset\<lparr>test_loaders := [[(Multi [0, 1], [0])]]\<rparr>,
       trace =
         [(Setup, Print_args), (Setup, Wandb_init), (Setup, Wandb_get_url),
          (Setup, Net_to_device), (Setup, ProgressBar_create), (Setup, Get_dataset),
          (Setup, Copy_get_data_loaders), (Setup, Copy_get_data_loaders),
          (Setup, Print_newline), (Task 0, Get_data_loaders), (Task 0, Begin_task),
          (Task 0, Get_scheduler), (Task 0, Print_task), (Task 0, Meta_observe 0 0),
          (Task 0, Progress 0 0), (Task 0, Scheduler_step), (Task 0, End_task),
          (Task 0, Evaluated False (Tuple2 [100] [100])), (Task 0, Print_mean_accuracy),
          (Task 0, Wandb_log), (Task 0, Create_dir), (Task 0, Save_net),
          (Task 0, Pickle_buffer), (Task 0, Pickle_args), (Task 0, Open_results_file)]\<rparr>)"
  by (simp add: run_simps demo_simps)

subsection \<open>The evaluation before a task\<close>

text \<open>
  C2. In the body of the loop for a task \<open>t \<ge> 1\<close> that returns, with
  \<open>ignore_other_metrics\<close> false, the start of the task (lines 149 to 158) loads the data
  of the task, calls \<^verbatim>\<open>begin_task\<close> when the model has one, and calls \<open>evaluate\<close> with
  \<^verbatim>\<open>last=True\<close>; no training step of the task is made before: all other calls of the task
  come after the start. The evaluation returns one accuracy per list, that of the last test
  loader, which is the one that the load of the task has added. After the start the entry
  \<open>t - 1\<close> of \<open>results\<close> is the entry before it followed by the class-il accuracies
  returned, every other entry of \<open>results\<close> is as it was, and
  \<open>results_mask_classes\<close> has its entry \<open>t - 1\<close> extended with the task-il accuracies
  when \<open>SETTING\<close> is \<^verbatim>\<open>'class-il'\<close> and is as it was otherwise.
\<close>

theorem train_evaluates_before_task:
  assumes "task env args t (results, results_mask_classes) s = (Inr out, s')"
    and "1 \<le> t" and "\<not> ignore_other_metrics args"
  shows "\<exists>train_loader results1 results_mask_classes1 s1 accs es.
     task_begin env args t results results_mask_classes s =
       (Inr (train_loader, results1, results_mask_classes1), s1) \<and>
     trace s1 = trace s @ (Task t, Get_data_loaders) #
                  (if has_begin_task (the_model s) then [(Task t, Begin_task)] else []) @
                  [(Task t, Evaluated True accs)] \<and>
     trace s' = trace s1 @ es \<and> list_all (\<lambda>x. fst x = Task t) es \<and>
     the_dataset s1 = snd (get_data_loaders env (the_dataset s)) \<and>
     evaluate env (the_model s1) (the_dataset s1) True = (Inr accs, the_model s1) \<and>
     (test_loaders (the_dataset s1) \<noteq> [] \<longrightarrow>
        (\<exists>a b sal_scores.
           eval_loader env (eval_mode (the_model s1)) (the_dataset s1)
             (length (test_loaders (the_dataset s1)) - 1)
             (last (test_loaders (the_dataset s1))) [] = Inr (a, b, sal_scores) \<and>
           item0 accs = [a] \<and> item1 accs = [b])) \<and>
     t - 1 < length results \<and>
     length results1 = length results \<and>
     results1 ! (t - 1) = results ! (t - 1) @ item0 accs \<and>
     (\<forall>i < length results. i \<noteq> t - 1 \<longrightarrow> results1 ! i = results ! i) \<and>
     (SETTING (the_dataset s1) = ''class-il'' \<longrightarrow>
        t - 1 < length results_mask_classes \<and>
        results_mask_classes1 =
          results_mask_classes[t - 1 := results_mask_classes ! (t - 1) @ item1 accs]) \<and>
     (SETTING (the_dataset s1) \<noteq> ''class-il'' \<longrightarrow>
        results_mask_classes1 = results_mask_classes)"
proof -
  from task_starts [OF assms(1)] obtain train_loader results1 rmc1 s1 es where
    b: "task_begin env args t results results_mask_classes s =
          (Inr (train_loader, results1, rmc1), s1)"
    and es: "trace s' = trace s1 @ es" "list_all (\<lambda>x. fst x = Task t) es"
    by blast
  have t: "t \<noteq> 0" using assms(2) by simp
  from task_begin_evaluates [OF t assms(3) b] obtain accs where
    ev: "evaluate env
       (if has_begin_task (the_model s)
        then begin_task env (net_mode True (the_model s))
        else net_mode True (the_model s))
       (the_dataset s1) True = (Inr accs, the_model s1)"
    and ds: "the_dataset s1 = snd (get_data_loaders env (the_dataset s))"
    and tr: "trace s1 = trace s @ (Task t, Get_data_loaders) #
                  (if has_begin_task (the_model s) then [(Task t, Begin_task)] else []) @
                  [(Task t, Evaluated True accs)]"
    and res: "t - 1 < length results"
      "results1 = results[t - 1 := results ! (t - 1) @ item0 accs]"
    and rmc: "if SETTING (the_dataset s1) = ''class-il''
      then t - 1 < length results_mask_classes \<and>
           rmc1 = results_mask_classes[t - 1 := results_mask_classes ! (t - 1) @ item1 accs]
      else rmc1 = results_mask_classes"
    by blast
  have ev': "evaluate env (the_model s1) (the_dataset s1) True = (Inr accs, the_model s1)"
    using ev by (rule evaluate_again)
  have lastl: "test_loaders (the_dataset s1) \<noteq> [] \<longrightarrow>
        (\<exists>a b sal_scores.
           eval_loader env (eval_mode (the_model s1)) (the_dataset s1)
             (length (test_loaders (the_dataset s1)) - 1)
             (last (test_loaders (the_dataset s1))) [] = Inr (a, b, sal_scores) \<and>
           item0 accs = [a] \<and> item1 accs = [b])"
    using evaluate_last_only [OF ev'] by blast
  have r1: "length results1 = length results"
    "results1 ! (t - 1) = results ! (t - 1) @ item0 accs"
    "\<forall>i < length results. i \<noteq> t - 1 \<longrightarrow> results1 ! i = results ! i"
    using res by simp_all
  have r2: "SETTING (the_dataset s1) = ''class-il'' \<longrightarrow>
        t - 1 < length results_mask_classes \<and>
        rmc1 = results_mask_classes[t - 1 := results_mask_classes ! (t - 1) @ item1 accs]"
    "SETTING (the_dataset s1) \<noteq> ''class-il'' \<longrightarrow> rmc1 = results_mask_classes"
    using rmc by (simp_all split: if_splits)
  show ?thesis
    apply (rule exI [of _ train_loader], rule exI [of _ results1], rule exI [of _ rmc1],
        rule exI [of _ s1], rule exI [of _ accs], rule exI [of _ es])
    using b tr es ds ev' lastl res(1) r1 r2 by simp
qed

text \<open>
  The theorem on the task 1 of the small run, from the lists and the dataset that the task 0
  leaves.
\<close>

lemma demo_task_result:
  "fst (task demo_env demo_args (Suc 0) ([[100]], [[100]]) demo_world) =
     Inr ([[100, 0], [100, 0]], [[100, 100], [100, 100]])"
  by (simp add: run_simps demo_simps demo_world_def)

lemma demo_task_run:
  "task demo_env demo_args (Suc 0) ([[100]], [[100]]) demo_world =
     (Inr ([[100, 0], [100, 0]], [[100, 100], [100, 100]]),
      snd (task demo_env demo_args (Suc 0) ([[100]], [[100]]) demo_world))"
  using demo_task_result by (cases "task demo_env demo_args (Suc 0) ([[100]], [[100]]) demo_world") simp

lemma demo_task_begin:
  "task_begin demo_env demo_args (Suc 0) [[100]] [[100]] demo_world =
     (Inr ([Batch3 (Multi [0, 1]) [0] 0], [[100, 0]], [[100, 100]]),
      \<lparr>the_model = demo_model, the_dataset = demo_loaded,
       trace = [(Task (Suc 0), Get_data_loaders), (Task (Suc 0), Begin_task),
                (Task (Suc 0), Evaluated True (Tuple2 [0] [100]))]\<rparr>)"
  by (simp add: run_simps demo_simps demo_world_def)

theorem train_evaluates_before_task_witness:
  "fst (task demo_env demo_args (Suc 0) ([[100]], [[100]]) demo_world) =
     Inr ([[100, 0], [100, 0]], [[100, 100], [100, 100]]) \<and>
   (1 :: nat) \<le> Suc 0 \<and> ignore_other_metrics demo_args = False \<and>
   task_begin demo_env demo_args (Suc 0) [[100]] [[100]] demo_world =
     (Inr ([Batch3 (Multi [0, 1]) [0] 0], [[100, 0]], [[100, 100]]),
      \<lparr>the_model = demo_model, the_dataset = demo_loaded,
       trace = [(Task (Suc 0), Get_data_loaders), (Task (Suc 0), Begin_task),
                (Task (Suc 0), Evaluated True (Tuple2 [0] [100]))]\<rparr>)"
  using train_evaluates_before_task [OF demo_task_run]
  by (simp add: demo_task_result demo_task_begin demo_fields)

end
